theory Spec2Isabelle
  imports Complex_Main
begin

section \<open>Ferro: hysteresis data processing and Preisach simulation\<close>

text \<open>
  A shallow embedding of the numeric core of \<^verbatim>\<open>ferro/HysteresisData.py\<close> and
  \<^verbatim>\<open>ferro/LandauFilm.py\<close>. numpy arrays of floats are lists of reals: the
  arithmetic is the exact arithmetic that the floating-point code approximates. Where the
  floating-point code would leave the finite numbers (a division by zero, the mean of an
  empty array) the model says so with the outcome \<open>NotFinite\<close>; it is not a Python
  exception, it marks a result that holds \<^verbatim>\<open>inf\<close> or \<^verbatim>\<open>nan\<close> and that
  the real numbers cannot express. The other constructors are the Python exceptions
  of the same name.
\<close>

datatype error =
  IndexError | ValueError string | TypeError | ZeroDivisionError | AttributeError | NotFinite

datatype warning = RuntimeWarning string | RankWarning string

subsection \<open>Data model\<close>

text \<open>\<^verbatim>\<open>class SampleData\<close>, \<^verbatim>\<open>class HysteresisData(SampleData)\<close> and
  \<^verbatim>\<open>class LeakageData(SampleData)\<close>.\<close>

record SampleData =
  fileName :: string
  thickness :: real
  area :: real
  temp :: int

record HysteresisData = SampleData +
  time :: "real list"
  voltage :: "real list"
  current :: "real list"
  polarization :: "real list"
  freq :: real
  dt :: real

record LeakageData = SampleData +
  lcmVoltage :: "real list"
  lcmCurrent :: "real list"
  lcmParms :: "real list"

subsection \<open>numpy helpers\<close>

text \<open>\<^verbatim>\<open>np.mean\<close>: the mean of an empty array is \<^verbatim>\<open>nan\<close>.\<close>

definition np_mean :: "real list \<Rightarrow> real option" where
  "np_mean xs = (if xs = [] then None else Some (sum_list xs / real (length xs)))"

text \<open>Python's \<^verbatim>\<open>max\<close> and \<^verbatim>\<open>min\<close> raise ValueError on an empty sequence.\<close>

definition py_max :: "real list \<Rightarrow> error + real" where
  "py_max xs = (case xs of [] \<Rightarrow> Inl (ValueError ''max() arg is an empty sequence'')
                | x # ys \<Rightarrow> Inr (fold max ys x))"

definition py_min :: "real list \<Rightarrow> error + real" where
  "py_min xs = (case xs of [] \<Rightarrow> Inl (ValueError ''min() arg is an empty sequence'')
                | x # ys \<Rightarrow> Inr (fold min ys x))"

subsection \<open>Leakage compensation\<close>

text \<open>\<^verbatim>\<open>def leakage_func(x, a, b, c, d, e, f, g)\<close>.\<close>

definition leakage_func :: "real \<Rightarrow> real \<Rightarrow> real \<Rightarrow> real \<Rightarrow> real \<Rightarrow> real \<Rightarrow> real \<Rightarrow> real \<Rightarrow> real" where
  "leakage_func x a b c d e f g =
     a * (x - g) ^ 5 + b * (x - g) ^ 4 + c * (x - g) ^ 3 + d * (x - g) ^ 2 + e * (x - g) + f"

text \<open>The call \<^verbatim>\<open>leakage_func(self.voltage[j], *ld.lcmParms)\<close>: the argument
  \<^verbatim>\<open>self.voltage[j]\<close> is evaluated first (IndexError when \<open>j\<close> is out of range),
  then the call fails with TypeError unless there are exactly seven parameters.\<close>

definition call_leakage_func :: "real list \<Rightarrow> nat \<Rightarrow> real list \<Rightarrow> error + real" where
  "call_leakage_func vs j parms =
     (if j \<ge> length vs then Inl IndexError
      else (case parms of
              [a, b, c, d, e, f, g] \<Rightarrow> Inr (leakage_func (vs ! j) a b c d e f g)
            | _ \<Rightarrow> Inl TypeError))"

text \<open>The loop \<^verbatim>\<open>for j, i in enumerate(compData.current): compData.current[j] = i - ilkg\<close>;
  \<open>j\<close> is the index of the head of the remaining list.\<close>

fun subtract_leakage :: "real list \<Rightarrow> real list \<Rightarrow> nat \<Rightarrow> real list \<Rightarrow> error + real list" where
  "subtract_leakage vs parms j [] = Inr []"
| "subtract_leakage vs parms j (i # rest) =
     (case call_leakage_func vs j parms of
        Inl e \<Rightarrow> Inl e
      | Inr ilkg \<Rightarrow>
          (case subtract_leakage vs parms (Suc j) rest of
             Inl e \<Rightarrow> Inl e
           | Inr out \<Rightarrow> Inr ((i - ilkg) # out)))"

text \<open>\<^verbatim>\<open>compData.current - np.mean(compData.current)\<close>: on an empty array the
  \<^verbatim>\<open>nan\<close> mean is subtracted from no element.\<close>

definition subtract_mean :: "real list \<Rightarrow> real list" where
  "subtract_mean xs = (case np_mean xs of None \<Rightarrow> xs | Some m \<Rightarrow> map (\<lambda>x. x - m) xs)"

text \<open>The re-integration loop shared by both compensations:
  \<^verbatim>\<open>testpol[0] = 0\<close>, \<^verbatim>\<open>testpol[i] = testpol[i-1] + current[i]*dt/area\<close>.
  \<open>integrate_from\<close> continues from the previous value over the samples after the
  first. The division by a zero area yields \<^verbatim>\<open>inf\<close> or \<^verbatim>\<open>nan\<close> as soon as the loop
  body runs.\<close>

fun integrate_from :: "real \<Rightarrow> real \<Rightarrow> real \<Rightarrow> real list \<Rightarrow> real list" where
  "integrate_from prev d a [] = []"
| "integrate_from prev d a (c # cs) =
     (let nxt = prev + c * d / a in nxt # integrate_from nxt d a cs)"

definition testpol_of :: "real list \<Rightarrow> real \<Rightarrow> real \<Rightarrow> error + real list" where
  "testpol_of cur d a =
     (case cur of
        [] \<Rightarrow> Inr []
      | c0 # cs \<Rightarrow>
          if cs \<noteq> [] \<and> a = 0 then Inl NotFinite
          else Inr (0 # integrate_from 0 d a cs))"

text \<open>\<^verbatim>\<open>HysteresisData.leakage_compensation\<close>. The result pairs the warnings issued
  with the outcome. \<^verbatim>\<open>return self\<close> hands back the object it was called on.\<close>

definition leakage_compensation ::
  "HysteresisData \<Rightarrow> LeakageData \<Rightarrow> warning list \<times> (error + HysteresisData)" where
  "leakage_compensation self ld =
     (if lcmParms ld = [] then
        ([RuntimeWarning ''Please run lcm_fit on the Leakage Data before attempting compensation.''],
         Inr self)
      else
        ([],
         case subtract_leakage (voltage self) (lcmParms ld) 0 (current self) of
           Inl e \<Rightarrow> Inl e
         | Inr cur1 \<Rightarrow>
             let cur2 = subtract_mean cur1 in
             (case testpol_of cur2 (dt self) (area self) of
                Inl e \<Rightarrow> Inl e
              | Inr testpol \<Rightarrow>
                  (case py_max testpol of
                     Inl e \<Rightarrow> Inl e
                   | Inr mx \<Rightarrow>
                       (case py_min testpol of
                          Inl e \<Rightarrow> Inl e
                        | Inr mn \<Rightarrow>
                            let offset = mx - (mx - mn) / 2 in
                            Inr (self\<lparr>current := cur2,
                                      polarization := map (\<lambda>p. p - offset) testpol\<rparr>))))))"

subsection \<open>FORC extraction\<close>

text \<open>The scan for local extrema at the head of \<^verbatim>\<open>forc_calc\<close>:
  \<^verbatim>\<open>for i, v in enumerate(self.voltage)\<close> skips \<open>i = 0\<close>, stops at
  \<open>i = len - 2\<close>, and otherwise reads \<^verbatim>\<open>voltage[i - 1]\<close> and \<^verbatim>\<open>voltage[i + 1]\<close>
  (both operands of \<^verbatim>\<open>&\<close> are evaluated). The second argument is the list of the
  indices still to visit.\<close>

fun extrema_loop :: "real list \<Rightarrow> nat list \<Rightarrow> nat list \<Rightarrow> nat list \<Rightarrow> error + (nat list \<times> nat list)" where
  "extrema_loop vs [] minimaIndex maximaIndex = Inr (minimaIndex, maximaIndex)"
| "extrema_loop vs (i # rest) minimaIndex maximaIndex =
     (if i = 0 then extrema_loop vs rest minimaIndex maximaIndex
      else if int i = int (length vs) - 2 then Inr (minimaIndex, maximaIndex)
      else if Suc i \<ge> length vs then Inl IndexError
      else
        let v = vs ! i;
            minimaIndex' = (if v < vs ! (i - 1) \<and> v < vs ! (i + 1)
                            then minimaIndex @ [i] else minimaIndex);
            maximaIndex' = (if v > vs ! (i - 1) \<and> v > vs ! (i + 1)
                            then maximaIndex @ [i] else maximaIndex)
        in extrema_loop vs rest minimaIndex' maximaIndex')"

definition find_extrema :: "real list \<Rightarrow> error + (nat list \<times> nat list)" where
  "find_extrema vs = extrema_loop vs [0..<length vs] [] []"

text \<open>Reading \<^verbatim>\<open>arr[i]\<close> from a numpy array with a Python integer: \<open>-1\<close> is the
  last element, \<open>-len\<close> the first, and anything outside \<open>-len \<le> i < len\<close> raises.\<close>

definition np_index :: "real list \<Rightarrow> int \<Rightarrow> error + real" where
  "np_index xs i =
     (if 0 \<le> i \<and> i < int (length xs) then Inr (xs ! nat i)
      else if i < 0 \<and> - int (length xs) \<le> i then Inr (xs ! nat (int (length xs) + i))
      else Inl IndexError)"

text \<open>The slice \<^verbatim>\<open>xs[a:b]\<close> for non-negative bounds: out-of-range bounds are
  clipped and \<open>b \<le> a\<close> gives the empty slice.\<close>

definition py_slice :: "'a list \<Rightarrow> nat \<Rightarrow> nat \<Rightarrow> 'a list" where
  "py_slice xs a b = drop a (take b xs)"

text \<open>The loop \<^verbatim>\<open>for i, v in enumerate(minimaIndex)\<close> that cuts out the reversal
  curves. \<^verbatim>\<open>[x] * k\<close> is empty for \<open>k \<le> 0\<close>, as \<open>replicate\<close> is with the truncated
  difference. The result is \<open>(vrFORC, vFORC, pFORC)\<close>.\<close>

fun span_loop ::
  "real list \<Rightarrow> real list \<Rightarrow> nat list \<Rightarrow> nat \<Rightarrow> nat list \<Rightarrow> error + (real list \<times> real list \<times> real list)" where
  "span_loop vs ps maximaIndex i [] = Inr ([], [], [])"
| "span_loop vs ps maximaIndex i (v # rest) =
     (case np_index vs (int v - 1) of
        Inl e \<Rightarrow> Inl e
      | Inr vr \<Rightarrow>
          if Suc i \<ge> length maximaIndex then Inl IndexError
          else
            let m = maximaIndex ! Suc i in
            (case span_loop vs ps maximaIndex (Suc i) rest of
               Inl e \<Rightarrow> Inl e
             | Inr (vrFORC, vFORC, pFORC) \<Rightarrow>
                 Inr (replicate (m - v) vr @ vrFORC,
                      py_slice vs v m @ vFORC,
                      py_slice ps v m @ pFORC)))"

definition forc_curves :: "HysteresisData \<Rightarrow> error + (real list \<times> real list \<times> real list)" where
  "forc_curves self =
     (case find_extrema (voltage self) of
        Inl e \<Rightarrow> Inl e
      | Inr (minimaIndex, maximaIndex) \<Rightarrow>
          if length minimaIndex < 2
          then Inl (ValueError ''Could not find two minima for FORC calculation. Aborting.'')
          else span_loop (voltage self) (polarization self) maximaIndex 0 minimaIndex)"

text \<open>\<^verbatim>\<open>np.asfarray(vFORC) / (self.thickness)\<close>: dividing a non-empty array by a
  zero thickness leaves the finite numbers.\<close>

definition to_field :: "real list \<Rightarrow> real \<Rightarrow> error + real list" where
  "to_field vs t = (if vs \<noteq> [] \<and> t = 0 then Inl NotFinite else Inr (map (\<lambda>v. v / t) vs))"

text \<open>\<^verbatim>\<open>arr.min()\<close> and \<^verbatim>\<open>arr.max()\<close> of numpy raise ValueError on an empty array;
  \<^verbatim>\<open>np.linspace(a, b, 200)\<close>; \<^verbatim>\<open>np.unique(np.sort(xs))\<close>.\<close>

definition np_min :: "real list \<Rightarrow> error + real" where
  "np_min xs = (case xs of [] \<Rightarrow> Inl (ValueError ''zero-size array to reduction operation minimum which has no identity'')
                | x # ys \<Rightarrow> Inr (fold min ys x))"

definition np_max :: "real list \<Rightarrow> error + real" where
  "np_max xs = (case xs of [] \<Rightarrow> Inl (ValueError ''zero-size array to reduction operation maximum which has no identity'')
                | x # ys \<Rightarrow> Inr (fold max ys x))"

definition linspace200 :: "real \<Rightarrow> real \<Rightarrow> real list" where
  "linspace200 a b = map (\<lambda>k. a + real k * ((b - a) / 199)) [0..<200]"

definition np_unique :: "real list \<Rightarrow> real list" where
  "np_unique xs = remdups_adj (sort xs)"

text \<open>A masked array is a grid of optional values: \<open>None\<close> is a masked cell.
  \<^verbatim>\<open>np.ma.getmask\<close>, \<^verbatim>\<open>.filled(0)\<close> and \<^verbatim>\<open>np.ma.masked_where(mask, a)\<close>, which
  raises IndexError when the shapes of the mask and of the array differ.\<close>

type_synonym masked_grid = "real option list list"

definition getmask :: "masked_grid \<Rightarrow> bool list list" where
  "getmask g = map (map (\<lambda>c. c = None)) g"

definition filled0 :: "masked_grid \<Rightarrow> real list list" where
  "filled0 g = map (map (\<lambda>c. case c of None \<Rightarrow> 0 | Some x \<Rightarrow> x)) g"

definition masked_where :: "bool list list \<Rightarrow> real list list \<Rightarrow> error + masked_grid" where
  "masked_where msk a =
     (if map length msk \<noteq> map length a then Inl IndexError
      else Inr (map (\<lambda>(mrow, arow). map (\<lambda>(m, x). if m then None else Some x) (zip mrow arow))
                   (zip msk a)))"

text \<open>The values of the cells that are not masked, row by row.\<close>

definition unmasked :: "masked_grid \<Rightarrow> real list" where
  "unmasked g = concat (map (\<lambda>row. concat (map (\<lambda>c. case c of None \<Rightarrow> [] | Some x \<Rightarrow> [x]) row)) g)"

text \<open>\<^verbatim>\<open>prob = abs(dEdEr) / np.sum(abs(dEdEr))\<close> on a masked array: the sum runs over
  the cells that are not masked, and the division of numpy.ma masks every cell whose
  divisor is zero (a plain array would hold \<^verbatim>\<open>nan\<close> there), so a zero sum leaves no
  cell with a value.\<close>

definition normalize_abs :: "masked_grid \<Rightarrow> masked_grid" where
  "normalize_abs dEdEr =
     (let total = sum_list (map abs (unmasked dEdEr))
      in map (map (\<lambda>c. case c of
                          None \<Rightarrow> None
                        | Some x \<Rightarrow> if total = 0 then None else Some (\<bar>x\<bar> / total))) dEdEr)"

text \<open>Lines 635 to 640 of \<^verbatim>\<open>forc_calc\<close>: the optional smoothing and the
  normalisation. \<open>uniform_filter\<close> stands for \<^verbatim>\<open>scipy.ndimage.filters.uniform_filter\<close>
  with the footprint \<^verbatim>\<open>filtDim\<close>, a library routine that is left open.\<close>

definition forc_prob ::
  "(real list list \<Rightarrow> real list list) \<Rightarrow> nat option \<Rightarrow> masked_grid \<Rightarrow> error + masked_grid" where
  "forc_prob uniform_filter filtIter dEdEr =
     (case filtIter of
        None \<Rightarrow> Inr (normalize_abs dEdEr)
      | Some k \<Rightarrow>
          let msk = getmask dEdEr;
              filtered = (uniform_filter ^^ k) (filled0 dEdEr)
          in (case masked_where msk filtered of
                Inl e \<Rightarrow> Inl e
              | Inr g \<Rightarrow> Inr (normalize_abs g)))"

text \<open>\<^verbatim>\<open>HysteresisData.forc_calc\<close> without its plotting. Three library routines are
  left open: \<open>griddata\<close> is \<^verbatim>\<open>plt.mlab.griddata(x, y, z, xi, yi, interp)\<close> (the flag
  says whether the interpolation is \<^verbatim>\<open>'linear'\<close>), \<open>gradient2\<close> is \<^verbatim>\<open>np.gradient\<close> of
  a grid with the two spacings, which returns the derivative along the rows and the one
  along the columns, and \<open>uniform_filter\<close> is as above. \<^verbatim>\<open>uniformVr[1]\<close> raises
  IndexError when all reversal voltages are equal.\<close>

definition forc_calc ::
  "(real list \<Rightarrow> real list \<Rightarrow> real list \<Rightarrow> real list \<Rightarrow> real list \<Rightarrow> bool
      \<Rightarrow> error + masked_grid)
   \<Rightarrow> (masked_grid \<Rightarrow> real \<Rightarrow> real \<Rightarrow> error + (masked_grid \<times> masked_grid))
   \<Rightarrow> (real list list \<Rightarrow> real list list)
   \<Rightarrow> HysteresisData \<Rightarrow> bool \<Rightarrow> nat option
   \<Rightarrow> error + (real list \<times> real list \<times> masked_grid)" where
  "forc_calc griddata gradient2 uniform_filter self linear' filtIter =
     (case forc_curves self of
        Inl e \<Rightarrow> Inl e
      | Inr (vrFORC, vFORC, pFORC) \<Rightarrow>
     (case to_field vFORC (thickness self) of
        Inl e \<Rightarrow> Inl e
      | Inr eFORC \<Rightarrow>
     (case to_field vrFORC (thickness self) of
        Inl e \<Rightarrow> Inl e
      | Inr erFORC \<Rightarrow>
     (case np_min eFORC of
        Inl e \<Rightarrow> Inl e
      | Inr emin \<Rightarrow>
     (case np_max eFORC of
        Inl e \<Rightarrow> Inl e
      | Inr emax \<Rightarrow>
     (case np_min vFORC of
        Inl e \<Rightarrow> Inl e
      | Inr vmin \<Rightarrow>
     (case np_max vFORC of
        Inl e \<Rightarrow> Inl e
      | Inr vmax \<Rightarrow>
          let uniformE = linspace200 emin emax;
              uniformEr = np_unique erFORC;
              uniformV = linspace200 vmin vmax;
              uniformVr = np_unique vrFORC
          in (case griddata eFORC erFORC pFORC uniformE uniformEr linear' of
                Inl e \<Rightarrow> Inl e
              | Inr grid \<Rightarrow>
                  if length uniformVr < 2 then Inl IndexError
                  else
                    let hVr = uniformVr ! 1 - uniformVr ! 0;
                        hV = uniformV ! 1 - uniformV ! 0
                    in (case gradient2 grid hVr hV of
                          Inl e \<Rightarrow> Inl e
                        | Inr (dE, dEr) \<Rightarrow>
                            (case gradient2 dE hVr hV of
                               Inl e \<Rightarrow> Inl e
                             | Inr (dEdE, dEdEr) \<Rightarrow>
                                 (case forc_prob uniform_filter filtIter dEdEr of
                                    Inl e \<Rightarrow> Inl e
                                  | Inr prob \<Rightarrow> Inr (uniformE, uniformEr, prob))))))))))))"

subsection \<open>Landau film: capacitance extraction and compensation\<close>

text \<open>\<^verbatim>\<open>class LandauFilm\<close> and \<^verbatim>\<open>class LandauDomain\<close>. The fields of the film are
  prefixed with \<open>film_\<close> and those of the domain that clash with them with \<open>dom_\<close>.\<close>

record LandauFilm =
  film_thickness :: real
  film_area :: real
  film_c :: real
  film_pr :: real

record LandauDomain =
  dom_pr :: real
  dom_t :: real
  dom_c :: real
  ec :: real
  ebias :: real
  dom_a :: real
  dom_b :: real
  dom_g :: real
  dom_area :: real

text \<open>\<^verbatim>\<open>LandauDomain.__init__(self, landau, area, ec, ebias, aTerm = 0, b = 0, g = 0)\<close>.\<close>

definition LandauDomain_init :: "LandauFilm \<Rightarrow> real \<Rightarrow> real \<Rightarrow> real \<Rightarrow> LandauDomain" where
  "LandauDomain_init landau a c b =
     \<lparr>dom_pr = film_pr landau, dom_t = film_thickness landau, dom_c = film_c landau,
      ec = c, ebias = b, dom_a = 0, dom_b = 0, dom_g = 0, dom_area = a\<rparr>"

text \<open>\<^verbatim>\<open>np.diff\<close>, and \<^verbatim>\<open>np.mean(np.abs(np.diff(voltage)/dt))\<close>, which is not a finite
  number when \<open>dt\<close> is zero or when there are fewer than two voltages.\<close>

fun np_diff :: "real list \<Rightarrow> real list" where
  "np_diff (x # y # rest) = (y - x) # np_diff (y # rest)"
| "np_diff _ = []"

definition mean_abs_dvdt :: "real list \<Rightarrow> real \<Rightarrow> real option" where
  "mean_abs_dvdt vs d = (if d = 0 then None else np_mean (map (\<lambda>x. \<bar>x / d\<bar>) (np_diff vs)))"

text \<open>\<^verbatim>\<open>np.median\<close>: the middle of the sorted values, the mean of the two middle
  ones for an even count, \<^verbatim>\<open>nan\<close> for an empty array.\<close>

definition np_median :: "real list \<Rightarrow> real option" where
  "np_median xs =
     (if xs = [] then None
      else let s = sort xs; n = length s
           in Some (if odd n then s ! (n div 2) else (s ! (n div 2 - 1) + s ! (n div 2)) / 2))"

text \<open>The body of the loop over the samples in \<^verbatim>\<open>cCalc\<close>: \<^verbatim>\<open>d.time[1]\<close> raises
  IndexError on fewer than two time stamps; the two statistics are stored as they are,
  \<open>None\<close> standing for \<^verbatim>\<open>nan\<close> or \<^verbatim>\<open>inf\<close>.\<close>

fun stats_loop :: "HysteresisData list \<Rightarrow> error + (real option \<times> real option) list" where
  "stats_loop [] = Inr []"
| "stats_loop (d # rest) =
     (if length (time d) < 2 then Inl IndexError
      else (case stats_loop rest of
              Inl e \<Rightarrow> Inl e
            | Inr out \<Rightarrow>
                Inr ((mean_abs_dvdt (voltage d) (dt d), np_median (map abs (current d))) # out)))"

text \<open>Lines 65 to 101 of \<^verbatim>\<open>LandauFilm.cCalc\<close>, without the plot: the regression on
  the samples \<open>hystData\<close> that the read loop has collected. \<open>polyfit\<close> stands for the
  library call \<^verbatim>\<open>np.polyfit(dvdt, medI, 1)\<close>; it returns the warnings it issues and
  either an error or the coefficient list \<open>iFit\<close>. The value \<open>er\<close> is computed for the
  plot title only and raises nothing.\<close>

definition cCalc_regression ::
  "(real list \<Rightarrow> real list \<Rightarrow> warning list \<times> (error + real list))
   \<Rightarrow> HysteresisData list \<Rightarrow> warning list \<times> (error + real)" where
  "cCalc_regression polyfit hystData =
     (case stats_loop hystData of
        Inl e \<Rightarrow> ([], Inl e)
      | Inr stats \<Rightarrow>
          if list_ex (\<lambda>s. fst s = None \<or> snd s = None) stats then ([], Inl NotFinite)
          else
            let dvdt = map (the \<circ> fst) stats; medI = map (the \<circ> snd) stats in
            (case polyfit dvdt medI of
               (w, Inl e) \<Rightarrow> (w, Inl e)
             | (w, Inr iFit) \<Rightarrow>
                 (case iFit of [] \<Rightarrow> (w, Inl IndexError) | c0 # _ \<Rightarrow> (w, Inr c0))))"

text \<open>The names that a \<^verbatim>\<open>HysteresisData\<close> object answers to: the attributes that the
  two \<^verbatim>\<open>__init__\<close> methods set and the methods that \<^verbatim>\<open>class SampleData\<close> and
  \<^verbatim>\<open>class HysteresisData\<close> define (the names inherited from Python's \<^verbatim>\<open>object\<close>, which
  all begin with two underscores, are left out). Reading any other attribute of the object
  raises AttributeError.\<close>

definition HysteresisData_attributes :: "string list" where
  "HysteresisData_attributes =
     [''fileName'', ''thickness'', ''area'', ''temp'',
      ''time'', ''voltage'', ''current'', ''polarization'', ''capacitance'', ''freq'', ''dt'',
      ''__init__'', ''tsv_read'', ''leakage_compensation'', ''bandstop_filter'', ''fft_plot'',
      ''hyst_plot'', ''time_plot'', ''dvdt_plot'', ''ncv_plot'', ''forc_calc'']"

definition getattr_HysteresisData :: "string \<Rightarrow> error + string" where
  "getattr_HysteresisData name =
     (if name \<in> set HysteresisData_attributes then Inr name else Inl AttributeError)"

text \<open>\<^verbatim>\<open>hd.HysteresisData(area=1E-4)\<close>: the object as the two \<^verbatim>\<open>__init__\<close> methods
  leave it, with the default thickness, temperature and frequency.\<close>

definition HysteresisData_init :: "real \<Rightarrow> HysteresisData" where
  "HysteresisData_init a =
     \<lparr>fileName = [], thickness = 13 / 10000000, area = a, temp = 300,
      time = [], voltage = [], current = [], polarization = [], freq = 100, dt = 0\<rparr>"

text \<open>The read loop of \<^verbatim>\<open>cCalc\<close> (lines 58 to 63): for every file a new object is
  made, the attribute \<^verbatim>\<open>tsvRead\<close> is looked up on it and called with the file name, and
  the object is appended to \<open>hystData\<close>. \<open>call\<close> stands for the effect of calling the
  method of a given name on the object with the file name, which reads the file
  system.\<close>

fun read_loop ::
  "(string \<Rightarrow> HysteresisData \<Rightarrow> string \<Rightarrow> error + HysteresisData)
   \<Rightarrow> string list \<Rightarrow> error + HysteresisData list" where
  "read_loop call [] = Inr []"
| "read_loop call (f # files) =
     (let data = HysteresisData_init (1 / 10000) in
      case getattr_HysteresisData ''tsvRead'' of
        Inl e \<Rightarrow> Inl e
      | Inr method \<Rightarrow>
          (case call method data f of
             Inl e \<Rightarrow> Inl e
           | Inr data' \<Rightarrow>
               (case read_loop call files of
                  Inl e \<Rightarrow> Inl e
                | Inr hystData \<Rightarrow> Inr (data' # hystData))))"

text \<open>\<^verbatim>\<open>LandauFilm.cCalc\<close> without its plot: the read loop, then the regression.\<close>

definition cCalc ::
  "(real list \<Rightarrow> real list \<Rightarrow> warning list \<times> (error + real list))
   \<Rightarrow> (string \<Rightarrow> HysteresisData \<Rightarrow> string \<Rightarrow> error + HysteresisData)
   \<Rightarrow> string list \<Rightarrow> warning list \<times> (error + real)" where
  "cCalc polyfit call files =
     (case read_loop call files of
        Inl e \<Rightarrow> ([], Inl e)
      | Inr hystData \<Rightarrow> cCalc_regression polyfit hystData)"

text \<open>A model of \<^verbatim>\<open>numpy.polyfit(x, y, 1)\<close>, which is library code: it raises TypeError
  for an empty \<open>x\<close> or for lengths that differ, and otherwise returns the slope and
  the intercept of the least-squares line. When all \<open>x\<close> are equal the system has rank
  one: numpy then only warns (RankWarning) and returns the least-squares solution of
  minimum norm in its column-scaled coordinates, which is the line with slope
  \<open>mean y / (2 x)\<close> and intercept \<open>mean y / 2\<close>; for \<open>x = 0\<close> the scaling divides by
  zero.\<close>

definition np_polyfit1 :: "real list \<Rightarrow> real list \<Rightarrow> warning list \<times> (error + real list)" where
  "np_polyfit1 xs ys =
     (if xs = [] \<or> length xs \<noteq> length ys then ([], Inl TypeError)
      else
        let n = real (length xs);
            sx = sum_list xs; sy = sum_list ys;
            sxx = sum_list (map (\<lambda>x. x * x) xs);
            sxy = sum_list (map (\<lambda>(x, y). x * y) (zip xs ys))
        in if list_all (\<lambda>x. x = hd xs) xs then
             (if hd xs = 0 then ([], Inl NotFinite)
              else ([RankWarning ''Polyfit may be poorly conditioned''],
                    Inr [(sy / n) / (2 * hd xs), (sy / n) / 2]))
           else
             let slope = (n * sxy - sx * sy) / (n * sxx - sx * sx)
             in ([], Inr [slope, (sy - slope * sx) / n]))"

text \<open>A floating-point number of numpy: a real number, \<^verbatim>\<open>inf\<close>, \<^verbatim>\<open>-inf\<close> or \<^verbatim>\<open>nan\<close>.
  Dividing by zero and taking the mean of an empty array only issue warnings there and
  yield such a value.\<close>

datatype npfloat = Num real | PosInf | NegInf | NaN

text \<open>\<^verbatim>\<open>np.mean(np.abs(np.diff(data.voltage)/data.dt))\<close> as numpy computes it. With
  fewer than two voltages it is the mean of an empty array, \<^verbatim>\<open>nan\<close>. With \<open>dt = 0\<close>
  every quotient is \<^verbatim>\<open>nan\<close> where the difference is zero and \<^verbatim>\<open>inf\<close> or \<^verbatim>\<open>-inf\<close>
  elsewhere, so the mean of the absolute values is \<^verbatim>\<open>nan\<close> when some difference is zero
  and \<^verbatim>\<open>inf\<close> when none is.\<close>

definition mean_abs_dvdt_float :: "real list \<Rightarrow> real \<Rightarrow> npfloat" where
  "mean_abs_dvdt_float vs d =
     (case mean_abs_dvdt vs d of
        Some x \<Rightarrow> Num x
      | None \<Rightarrow>
          if np_diff vs \<noteq> [] \<and> list_all (\<lambda>x. x \<noteq> 0) (np_diff vs) then PosInf else NaN)"

text \<open>The three operations of the thresholding loop on such a value, with a real number
  on the left: the product \<open>c * y\<close>, the difference \<open>i - y\<close> and the comparison
  \<open>a >= y\<close>, which is false against \<^verbatim>\<open>nan\<close>.\<close>

fun np_times :: "real \<Rightarrow> npfloat \<Rightarrow> npfloat" where
  "np_times c (Num y) = Num (c * y)"
| "np_times c PosInf = (if c > 0 then PosInf else if c < 0 then NegInf else NaN)"
| "np_times c NegInf = (if c > 0 then NegInf else if c < 0 then PosInf else NaN)"
| "np_times c NaN = NaN"

fun np_minus :: "real \<Rightarrow> npfloat \<Rightarrow> npfloat" where
  "np_minus i (Num y) = Num (i - y)"
| "np_minus i PosInf = NegInf"
| "np_minus i NegInf = PosInf"
| "np_minus i NaN = NaN"

fun np_ge :: "real \<Rightarrow> npfloat \<Rightarrow> bool" where
  "np_ge a (Num y) = (a \<ge> y)"
| "np_ge a PosInf = False"
| "np_ge a NegInf = True"
| "np_ge a NaN = False"

text \<open>The body of the thresholding loop of \<^verbatim>\<open>cCompensation\<close>: the value stored in
  \<^verbatim>\<open>compData.current[j]\<close> for the current sample \<open>i\<close>.\<close>

definition threshold :: "npfloat \<Rightarrow> real \<Rightarrow> npfloat" where
  "threshold icap i =
     (if np_ge \<bar>i\<bar> icap then np_minus i (np_times (sgn i) icap) else Num 0)"

text \<open>The loop \<^verbatim>\<open>for j, i in enumerate(data.current)\<close>. The samples of the model are
  lists of real numbers: where the code stores \<^verbatim>\<open>inf\<close>, \<^verbatim>\<open>-inf\<close> or \<^verbatim>\<open>nan\<close> in the
  current array (which happens only against a floor of \<^verbatim>\<open>-inf\<close>), the outcome is
  \<open>NotFinite\<close>.\<close>

fun threshold_loop :: "npfloat \<Rightarrow> real list \<Rightarrow> error + real list" where
  "threshold_loop icap [] = Inr []"
| "threshold_loop icap (i # rest) =
     (case threshold icap i of
        Num v \<Rightarrow>
          (case threshold_loop icap rest of
             Inl e \<Rightarrow> Inl e
           | Inr out \<Rightarrow> Inr (v # out))
      | _ \<Rightarrow> Inl NotFinite)"

text \<open>\<^verbatim>\<open>LandauFilm.cCompensation\<close> without its plot; it returns the compensated copy
  of the sample and \<open>pr\<close>.\<close>

definition cCompensation :: "LandauFilm \<Rightarrow> HysteresisData \<Rightarrow> error + (HysteresisData \<times> real)" where
  "cCompensation self data =
     (let dvdt = mean_abs_dvdt_float (voltage data) (dt data);
          icap = np_times (film_c self) dvdt
      in case threshold_loop icap (current data) of
           Inl e \<Rightarrow> Inl e
         | Inr cur \<Rightarrow>
             (case testpol_of cur (dt data) (area data) of
                Inl e \<Rightarrow> Inl e
              | Inr testpol \<Rightarrow>
                  (case py_max testpol of
                     Inl e \<Rightarrow> Inl e
                   | Inr mx \<Rightarrow>
                       (case py_min testpol of
                          Inl e \<Rightarrow> Inl e
                        | Inr mn \<Rightarrow>
                            let pr = (mx - mn) / 2;
                                offset = mx - (mx - mn) / 2
                            in Inr (data\<lparr>current := cur,
                                          polarization := map (\<lambda>p. p - offset) testpol\<rparr>, pr)))))"

subsection \<open>Domain generation\<close>

text \<open>The argument checks of \<^verbatim>\<open>np.random.choice(index, p=probf)\<close>, in the order
  numpy makes them. \<open>index\<close> has the length of \<open>probf\<close> by construction.\<close>

definition choice_check :: "real list \<Rightarrow> error option" where
  "choice_check probf =
     (if probf = [] then Some (ValueError ''a must be non-empty'')
      else if list_ex (\<lambda>p. p < 0) probf then Some (ValueError ''probabilities are not non-negative'')
      else if sum_list probf \<noteq> 1 then Some (ValueError ''probabilities do not sum to 1'')
      else None)"

text \<open>The loop \<^verbatim>\<open>for i in range(n)\<close> of \<^verbatim>\<open>domainGen\<close>. The random source is the
  function \<open>draws\<close>: \<open>draws i\<close> is the index that \<^verbatim>\<open>np.random.choice\<close> returns in
  iteration \<open>i\<close>. The fourth argument is the list of the iterations still to run.
  \<^verbatim>\<open>prob.shape[1]\<close> is the length of the first row.\<close>

fun domain_loop ::
  "LandauFilm \<Rightarrow> real list \<Rightarrow> real list \<Rightarrow> nat list \<Rightarrow> real list list \<Rightarrow> nat \<Rightarrow> (nat \<Rightarrow> nat)
   \<Rightarrow> error + (LandauDomain list \<times> real list list)" where
  "domain_loop self e er [] prob n draws = Inr ([], [])"
| "domain_loop self e er (i # rest) prob n draws =
     (case choice_check (concat prob) of
        Some err \<Rightarrow> Inl err
      | None \<Rightarrow>
          let j = draws i in
          (case prob of
             [] \<Rightarrow> Inl IndexError
           | row # _ \<Rightarrow>
               if length row = 0 then Inl ZeroDivisionError
               else
                 (case np_index e (int (j mod length row)) of
                    Inl err \<Rightarrow> Inl err
                  | Inr egrain \<Rightarrow>
                      (case np_index er (int (j div length row)) of
                         Inl err \<Rightarrow> Inl err
                       | Inr ergrain \<Rightarrow>
                           let ec' = (egrain - ergrain) / 2;
                               ebias' = (egrain + ergrain) / 2;
                               genDomain = LandauDomain_init self (film_area self / real n) ec' ebias'
                           in (case domain_loop self e er rest prob n draws of
                                 Inl err \<Rightarrow> Inl err
                               | Inr (domainList, domains) \<Rightarrow>
                                   Inr (genDomain # domainList,
                                        [egrain, ergrain, ec', ebias'] # domains))))))"

text \<open>\<^verbatim>\<open>LandauFilm.domainGen\<close> without its plot: \<^verbatim>\<open>np.ma.filled(prob, 0)\<close>, the
  flattening, and the loop. It returns the list of domains and the parameter matrix
  (\<^verbatim>\<open>retParms\<close> only selects whether the caller gets the second).\<close>

definition domainGen ::
  "LandauFilm \<Rightarrow> real list \<Rightarrow> real list \<Rightarrow> masked_grid \<Rightarrow> nat \<Rightarrow> (nat \<Rightarrow> nat)
   \<Rightarrow> error + (LandauDomain list \<times> real list list)" where
  "domainGen self e er prob n draws = domain_loop self e er [0..<n] (filled0 prob) n draws"

subsection \<open>Preisach simulation\<close>

text \<open>The argument \<^verbatim>\<open>initState\<close> is \<^verbatim>\<open>None\<close> or a numpy array.\<close>

datatype init_state = PyNone | NdArray "real list"

text \<open>\<^verbatim>\<open>if initState == None\<close>: for an array, the comparison is made element by
  element and no element equals \<^verbatim>\<open>None\<close>; the truth value of the resulting boolean
  array is that of its only element, is false for an empty array, and is an error for
  more than one element.\<close>

definition ambiguous_truth :: error where
  "ambiguous_truth = ValueError
     ''The truth value of an array with more than one element is ambiguous. Use a.any() or a.all()''"

definition init_check :: "init_state \<Rightarrow> nat \<Rightarrow> error + real list" where
  "init_check initState n_domains =
     (case initState of
        PyNone \<Rightarrow> Inr (replicate n_domains (- 1))
      | NdArray xs \<Rightarrow>
          if length xs > 1 then Inl ambiguous_truth else Inr xs)"

text \<open>\<^verbatim>\<open>np.gradient\<close> of a one-dimensional array with unit spacing: one-sided
  differences at both ends, central differences inside, ValueError below two elements.\<close>

definition np_gradient :: "real list \<Rightarrow> error + real list" where
  "np_gradient xs =
     (let n = length xs in
      if n < 2
      then Inl (ValueError ''Shape of array too small to calculate a numerical gradient, at least (edge_order + 1) elements are required.'')
      else Inr (map (\<lambda>i. if i = 0 then xs ! 1 - xs ! 0
                          else if i = n - 1 then xs ! (n - 1) - xs ! (n - 2)
                          else (xs ! (i + 1) - xs ! (i - 1)) / 2) [0..<n]))"

text \<open>The body of the inner loop for one domain: the new value of \<^verbatim>\<open>state[i]\<close>.\<close>

definition switch :: "real \<Rightarrow> real \<Rightarrow> LandauDomain \<Rightarrow> real \<Rightarrow> real" where
  "switch sweepDir_j e d s =
     (if sweepDir_j > 0 then (if e \<ge> ec d + ebias d then 1 else s)
      else if sweepDir_j < 0 then (if e \<le> - ec d + ebias d then - 1 else s)
      else s)"

text \<open>The inner loop \<^verbatim>\<open>for i, d in enumerate(domains)\<close>: it carries the state array
  and \<^verbatim>\<open>p[j]\<close>; \<^verbatim>\<open>state[i]\<close> is read in every iteration, so a state array that is
  too short raises IndexError.\<close>

fun inner_loop :: "real \<Rightarrow> real \<Rightarrow> LandauDomain list \<Rightarrow> nat \<Rightarrow> real list \<Rightarrow> real
   \<Rightarrow> error + (real list \<times> real)" where
  "inner_loop sweepDir_j e [] i state pj = Inr (state, pj)"
| "inner_loop sweepDir_j e (d # rest) i state pj =
     (if i \<ge> length state then Inl IndexError
      else
        let s = switch sweepDir_j e d (state ! i);
            state' = state[i := s]
        in inner_loop sweepDir_j e rest (Suc i) state' (pj + dom_pr d * dom_area d * s))"

text \<open>The outer loop \<^verbatim>\<open>for j, e in enumerate(esweep)\<close> over the field values paired
  with their sweep directions; it returns the summed charges and the final state.\<close>

fun sweep_loop :: "(real \<times> real) list \<Rightarrow> LandauDomain list \<Rightarrow> real list
   \<Rightarrow> error + (real list \<times> real list)" where
  "sweep_loop [] domains state = Inr ([], state)"
| "sweep_loop ((e, sweepDir_j) # rest) domains state =
     (case inner_loop sweepDir_j e domains 0 state 0 of
        Inl err \<Rightarrow> Inl err
      | Inr (state', pj) \<Rightarrow>
          (case sweep_loop rest domains state' of
             Inl err \<Rightarrow> Inl err
           | Inr (p, final) \<Rightarrow> Inr (pj # p, final)))"

text \<open>\<^verbatim>\<open>LandauFilm.calcEfePreisach\<close> without its plot. \<^verbatim>\<open>p / self.area\<close> divides a
  non-empty array; a zero film area leaves the finite numbers.\<close>

definition calcEfePreisach ::
  "LandauFilm \<Rightarrow> real list \<Rightarrow> LandauDomain list \<Rightarrow> init_state \<Rightarrow> error + (real list \<times> real list)" where
  "calcEfePreisach self esweep domains initState =
     (case init_check initState (length domains) of
        Inl err \<Rightarrow> Inl err
      | Inr state \<Rightarrow>
          (case np_gradient esweep of
             Inl err \<Rightarrow> Inl err
           | Inr sweepDir \<Rightarrow>
               (case sweep_loop (zip esweep sweepDir) domains state of
                  Inl err \<Rightarrow> Inl err
                | Inr (p, final) \<Rightarrow>
                    if film_area self = 0 then Inl NotFinite
                    else Inr (map (\<lambda>x. x / film_area self) p, final))))"

section \<open>Concrete inputs\<close>

text \<open>A three-point sample and a leakage model with the fitted line \<open>f(x) = x\<close>.\<close>

definition sample3 :: HysteresisData where
  "sample3 = \<lparr>fileName = ''a.tsv'', thickness = 1, area = 1, temp = 300,
       time = [0, 1, 2], voltage = [0, 1, 0], current = [1, 2, 6], polarization = [0, 0, 0],
       freq = 100, dt = 1\<rparr>"

definition leak_line :: LeakageData where
  "leak_line = \<lparr>fileName = ''l.tsv'', thickness = 1, area = 1, temp = 300,
       lcmVoltage = [0, 1], lcmCurrent = [0, 1], lcmParms = [0, 0, 0, 0, 1, 0, 0]\<rparr>"

text \<open>A film with one domain of the same area, coercive field 1, no bias and unit
  remnant polarization; a voltage trace with two local minima and two local maxima.\<close>

definition film1 :: LandauFilm where
  "film1 = \<lparr>film_thickness = 1, film_area = 2, film_c = 1, film_pr = 1\<rparr>"

definition dom1 :: LandauDomain where
  "dom1 = LandauDomain_init film1 2 1 0"

text \<open>The same film with a negative capacitance.\<close>

definition film_neg :: LandauFilm where
  "film_neg = \<lparr>film_thickness = 1, film_area = 2, film_c = - 1, film_pr = 1\<rparr>"

definition trace_min_first :: HysteresisData where
  "trace_min_first = \<lparr>fileName = ''f.tsv'', thickness = 2, area = 1, temp = 300,
       time = [0, 1, 2, 3, 4, 5, 6, 7], voltage = [5, 1, 6, 0, 7, 3, 3, 3],
       current = [0, 0, 0, 0, 0, 0, 0, 0], polarization = [10, 11, 12, 13, 14, 15, 16, 17],
       freq = 100, dt = 1\<rparr>"

text \<open>A four-point sample whose voltage ramps by 2 per step.\<close>

definition ramp_sample :: HysteresisData where
  "ramp_sample = \<lparr>fileName = ''c.tsv'', thickness = 1, area = 1, temp = 300,
       time = [0, 1, 2, 3], voltage = [0, 2, 4, 2],
       current = [3, - 1, 0, - 5], polarization = [0, 0, 0, 0],
       freq = 100, dt = 1\<rparr>"

text \<open>A voltage trace that starts with a maximum: its minima are at 2 and 5, its maxima
  at 1, 4 and 7.\<close>

definition trace_max_first :: HysteresisData where
  "trace_max_first = \<lparr>fileName = ''f.tsv'', thickness = 2, area = 1, temp = 300,
       time = [0, 1, 2, 3, 4, 5, 6, 7, 8, 9, 10], voltage = [5, 6, 1, 2, 7, 0, 3, 8, 4, 4, 4],
       current = [0, 0, 0, 0, 0, 0, 0, 0, 0, 0, 0],
       polarization = [10, 11, 12, 13, 14, 15, 16, 17, 18, 19, 20],
       freq = 100, dt = 1\<rparr>"

text \<open>What the domain generator may assume of its inputs: the density grid is a
  two-dimensional array with \<open>ncols\<close> columns, and \<^verbatim>\<open>np.random.choice\<close> only
  returns an index of the flattened grid whose probability is positive.\<close>

definition rectangular :: "'a list list \<Rightarrow> nat \<Rightarrow> bool" where
  "rectangular g ncols \<longleftrightarrow> g \<noteq> [] \<and> list_all (\<lambda>row. length row = ncols) g"

definition possible_draw :: "real list \<Rightarrow> nat \<Rightarrow> bool" where
  "possible_draw probf j \<longleftrightarrow> j < length probf \<and> 0 < probf ! j"

text \<open>A 2 by 3 density grid whose only non-zero cell is in row 1, column 1.\<close>

definition one_cell_grid :: masked_grid where
  "one_cell_grid = [[Some 0, Some 0, Some 0], [Some 0, Some 1, None]]"

text \<open>The state of one domain after step \<open>j\<close> of a sweep, in the words of the
  specification: the state becomes \<open>+1\<close> when the local sweep direction is positive and
  the field is at least \<open>ec + ebias\<close>, becomes \<open>-1\<close> when the direction is negative and the
  field is at most \<open>-ec + ebias\<close>, and otherwise stays what it was after the step before
  (\<open>s0\<close> before the first step).\<close>

primrec spec_state :: "real list \<Rightarrow> real list \<Rightarrow> LandauDomain \<Rightarrow> real \<Rightarrow> nat \<Rightarrow> real" where
  "spec_state esweep sweepDir d s0 0 =
     (if sweepDir ! 0 > 0 \<and> esweep ! 0 \<ge> ec d + ebias d then 1
      else if sweepDir ! 0 < 0 \<and> esweep ! 0 \<le> - ec d + ebias d then - 1
      else s0)"
| "spec_state esweep sweepDir d s0 (Suc j) =
     (if sweepDir ! Suc j > 0 \<and> esweep ! Suc j \<ge> ec d + ebias d then 1
      else if sweepDir ! Suc j < 0 \<and> esweep ! Suc j \<le> - ec d + ebias d then - 1
      else spec_state esweep sweepDir d s0 j)"

text \<open>A triangular sweep from \<open>-2\<close> to \<open>+2\<close> and back in unit steps, and a minor
  loop that stays inside the thresholds.\<close>

definition tri_sweep :: "real list" where
  "tri_sweep = [- 2, - 1, 0, 1, 2, 1, 0, - 1, - 2]"

definition minor_sweep :: "real list" where
  "minor_sweep = [- 1 / 2, 0, 1 / 2, 0, - 1 / 2]"

text \<open>A second sample, with half the ramp rate of \<open>ramp_sample\<close>.\<close>

definition slow_sample :: HysteresisData where
  "slow_sample = \<lparr>fileName = ''d.tsv'', thickness = 1, area = 1, temp = 300,
       time = [0, 1, 2, 3], voltage = [0, 1, 2, 1],
       current = [1, - 1, 1, - 1], polarization = [0, 0, 0, 0],
       freq = 50, dt = 1\<rparr>"


section \<open>Leakage compensation\<close>

lemma sum_list_sub_const:
  "sum_list (map (\<lambda>x. x - m) xs) = sum_list xs - real (length xs) * (m::real)"
  by (induction xs) (simp_all add: algebra_simps)

lemma np_mean_subtract_mean:
  "xs \<noteq> [] \<Longrightarrow> np_mean (subtract_mean xs) = Some 0"
  by (simp add: subtract_mean_def np_mean_def sum_list_sub_const)

lemma testpol_of_Nil_iff: "testpol_of cur d a = Inr tp \<Longrightarrow> tp = [] \<longleftrightarrow> cur = []"
  by (auto simp: testpol_of_def split: list.splits if_splits)

lemma py_max_Inr: "py_max xs = Inr m \<Longrightarrow> xs \<noteq> []"
  by (auto simp: py_max_def)

lemma py_max_ok: "xs \<noteq> [] \<Longrightarrow> \<exists>m. py_max xs = Inr m"
  by (cases xs) (simp_all add: py_max_def)

lemma py_min_ok: "xs \<noteq> [] \<Longrightarrow> \<exists>m. py_min xs = Inr m"
  by (cases xs) (simp_all add: py_min_def)

lemma subtract_leakage_length:
  "subtract_leakage vs parms j cur = Inr out \<Longrightarrow> length out = length cur"
  by (induction cur arbitrary: j out) (auto split: sum.splits)

lemma subtract_leakage_ok:
  "length parms = 7 \<Longrightarrow> j + length cur \<le> length vs
   \<Longrightarrow> \<exists>out. subtract_leakage vs parms j cur = Inr out"
proof (induction cur arbitrary: j)
  case Nil
  then show ?case by simp
next
  case (Cons i rest)
  from Cons.prems(1) obtain a b c d e f g where p: "parms = [a, b, c, d, e, f, g]"
    by (auto simp: length_Suc_conv numeral_eq_Suc)
  from Cons.prems have "Suc j + length rest \<le> length vs" by simp
  from Cons.IH[OF Cons.prems(1) this]
  obtain out where "subtract_leakage vs parms (Suc j) rest = Inr out" by blast
  moreover have "j < length vs" using Cons.prems by simp
  ultimately show ?case by (simp add: call_leakage_func_def p)
qed

text \<open>
  Claim C4. Whenever \<open>leakage_compensation\<close> runs against a fitted leakage model and
  returns a sample, the mean of the current array of that sample is zero: the mean of
  the residual was subtracted from every element. It does return one for seven fitted
  parameters, a non-empty current array no longer than the voltage array and a non-zero
  area.
\<close>

theorem leakage_compensation_mean_zero:
  "(\<forall>w compData. lcmParms ld \<noteq> [] \<and> leakage_compensation self ld = (w, Inr compData)
        \<longrightarrow> np_mean (current compData) = Some 0)
   \<and> (length (lcmParms ld) = 7 \<and> current self \<noteq> []
        \<and> length (current self) \<le> length (voltage self) \<and> area self \<noteq> 0
        \<longrightarrow> (\<exists>compData. leakage_compensation self ld = ([], Inr compData)))"
proof (intro conjI allI impI)
  fix w compData
  assume a: "lcmParms ld \<noteq> [] \<and> leakage_compensation self ld = (w, Inr compData)"
  then obtain cur1 tp mx where
    c1: "subtract_leakage (voltage self) (lcmParms ld) 0 (current self) = Inr cur1" and
    tp: "testpol_of (subtract_mean cur1) (dt self) (area self) = Inr tp" and
    mx: "py_max tp = Inr mx" and
    cd: "current compData = subtract_mean cur1"
    by (auto simp: leakage_compensation_def Let_def split: sum.splits)
  from mx have "tp \<noteq> []" by (rule py_max_Inr)
  with testpol_of_Nil_iff[OF tp] have "subtract_mean cur1 \<noteq> []" by simp
  then have "cur1 \<noteq> []" by (auto simp: subtract_mean_def np_mean_def)
  then show "np_mean (current compData) = Some 0" by (simp add: cd np_mean_subtract_mean)
next
  assume h: "length (lcmParms ld) = 7 \<and> current self \<noteq> []
      \<and> length (current self) \<le> length (voltage self) \<and> area self \<noteq> 0"
  then obtain cur1 where
    c1: "subtract_leakage (voltage self) (lcmParms ld) 0 (current self) = Inr cur1"
    using subtract_leakage_ok[of "lcmParms ld" 0 "current self" "voltage self"] by auto
  have ne: "cur1 \<noteq> []" using subtract_leakage_length[OF c1] h by auto
  then have ne2: "subtract_mean cur1 \<noteq> []" by (auto simp: subtract_mean_def np_mean_def)
  then obtain c0 cs where "subtract_mean cur1 = c0 # cs" by (cases "subtract_mean cur1") auto
  then obtain tp where
    tp: "testpol_of (subtract_mean cur1) (dt self) (area self) = Inr tp" "tp \<noteq> []"
    using h by (simp add: testpol_of_def)
  then obtain mx mn where "py_max tp = Inr mx" "py_min tp = Inr mn"
    using py_max_ok[of tp] py_min_ok[of tp] by blast
  with c1 tp h show "\<exists>compData. leakage_compensation self ld = ([], Inr compData)"
    by (auto simp: leakage_compensation_def Let_def)
qed

theorem leakage_compensation_mean_zero_witness:
  "leakage_compensation sample3 leak_line
     = ([], Inr (sample3\<lparr>current := [- (5 / 3), - (5 / 3), 10 / 3],
                          polarization := [0, - (5 / 3), 5 / 3]\<rparr>))
   \<and> np_mean [- (5 / 3), - (5 / 3), 10 / 3] = Some 0"
proof -
  have e: "leakage_compensation sample3 leak_line
     = ([], Inr (sample3\<lparr>current := [- (5 / 3), - (5 / 3), 10 / 3],
                          polarization := [0, - (5 / 3), 5 / 3]\<rparr>))"
    by (simp add: leakage_compensation_def sample3_def leak_line_def call_leakage_func_def
        leakage_func_def subtract_mean_def np_mean_def testpol_of_def py_max_def py_min_def)
  have p: "lcmParms leak_line \<noteq> []" by (simp add: leak_line_def)
  from leakage_compensation_mean_zero[of leak_line sample3] p e
  have "np_mean (current (sample3\<lparr>current := [- (5 / 3), - (5 / 3), 10 / 3],
                          polarization := [0, - (5 / 3), 5 / 3]\<rparr>)) = Some 0"
    by blast
  with e show ?thesis by simp
qed

text \<open>
  Claim C7. Called with a leakage model whose parameter list is empty (not fitted),
  \<open>leakage_compensation\<close> issues one RuntimeWarning, raises nothing and returns the very
  sample it was called on, with every array as it was.
\<close>

theorem leakage_compensation_unfit_noop:
  "leakage_compensation self (ld\<lparr>lcmParms := []\<rparr>)
     = ([RuntimeWarning ''Please run lcm_fit on the Leakage Data before attempting compensation.''],
        Inr self)"
  by (simp add: leakage_compensation_def)

theorem leakage_compensation_unfit_noop_witness:
  "leakage_compensation sample3 (leak_line\<lparr>lcmParms := []\<rparr>)
     = ([RuntimeWarning ''Please run lcm_fit on the Leakage Data before attempting compensation.''],
        Inr sample3)
   \<and> current sample3 = [1, 2, 6]"
  using leakage_compensation_unfit_noop[of sample3 leak_line] by (simp add: sample3_def)


section \<open>Preisach simulation: the check of the initial state\<close>

lemma inner_loop_error: "inner_loop sd e ds i st pj = Inl err \<Longrightarrow> err = IndexError"
  by (induction ds arbitrary: i st pj) (auto simp: Let_def split: if_splits)

lemma sweep_loop_error: "sweep_loop steps ds st = Inl err \<Longrightarrow> err = IndexError"
proof (induction steps arbitrary: st)
  case Nil
  then show ?case by simp
next
  case (Cons a steps)
  obtain e sd where a: "a = (e, sd)" by (cases a)
  from Cons.prems show ?case unfolding a
    by (auto split: sum.splits prod.splits dest: inner_loop_error Cons.IH)
qed

lemma calc_not_ambiguous:
  assumes "init_check initState (length domains) = Inr st"
  shows "calcEfePreisach self esweep domains initState \<noteq> Inl ambiguous_truth"
proof
  assume a: "calcEfePreisach self esweep domains initState = Inl ambiguous_truth"
  show False
  proof (cases "np_gradient esweep")
    case (Inl err)
    then have "err = ValueError ''Shape of array too small to calculate a numerical gradient, at least (edge_order + 1) elements are required.''"
      by (auto simp: np_gradient_def Let_def split: if_splits)
    with a assms Inl show False by (simp add: calcEfePreisach_def ambiguous_truth_def)
  next
    case (Inr sweepDir)
    show False
    proof (cases "sweep_loop (zip esweep sweepDir) domains st")
      case (Inl err)
      then have "err = IndexError" by (rule sweep_loop_error)
      with a assms Inr Inl show False by (simp add: calcEfePreisach_def ambiguous_truth_def)
    next
      case (Inr r)
      with a assms \<open>np_gradient esweep = Inr sweepDir\<close> show False
        by (cases r) (simp add: calcEfePreisach_def ambiguous_truth_def split: if_splits)
    qed
  qed
qed

text \<open>
  Claim C10. For every \<open>initState\<close> that is an array with more than one element,
  \<open>calcEfePreisach\<close> raises the ValueError of the ambiguous truth value at the check
  \<^verbatim>\<open>initState == None\<close>, whatever the sweep and the domains are; with \<^verbatim>\<open>None\<close> or
  with an array of exactly one element that error does not occur.
\<close>

theorem calcEfePreisach_array_initState:
  "(1 < length xs \<longrightarrow>
      calcEfePreisach self esweep domains (NdArray xs) = Inl ambiguous_truth)
   \<and> (length xs = 1 \<longrightarrow>
      calcEfePreisach self esweep domains (NdArray xs) \<noteq> Inl ambiguous_truth)
   \<and> calcEfePreisach self esweep domains PyNone \<noteq> Inl ambiguous_truth"
proof (intro conjI impI)
  assume "1 < length xs"
  then show "calcEfePreisach self esweep domains (NdArray xs) = Inl ambiguous_truth"
    by (simp add: calcEfePreisach_def init_check_def)
next
  assume "length xs = 1"
  then have "init_check (NdArray xs) (length domains) = Inr xs" by (simp add: init_check_def)
  then show "calcEfePreisach self esweep domains (NdArray xs) \<noteq> Inl ambiguous_truth"
    by (rule calc_not_ambiguous)
next
  have "init_check PyNone (length domains) = Inr (replicate (length domains) (- 1))"
    by (simp add: init_check_def)
  then show "calcEfePreisach self esweep domains PyNone \<noteq> Inl ambiguous_truth"
    by (rule calc_not_ambiguous)
qed

theorem calcEfePreisach_array_initState_witness:
  "1 < length [- 1, - 1 :: real]
   \<and> calcEfePreisach film1 [- 2, 0, 2] [dom1, dom1] (NdArray [- 1, - 1]) = Inl ambiguous_truth"
  using calcEfePreisach_array_initState[of "[- 1, - 1]" film1 "[- 2, 0, 2]" "[dom1, dom1]"]
  by simp

section \<open>FORC extraction: the reversal curves\<close>

lemma np_index_error: "np_index xs i = Inl err \<Longrightarrow> err = IndexError"
  by (auto simp: np_index_def split: if_splits)

lemma span_loop_too_few_maxima:
  "mins \<noteq> [] \<Longrightarrow> length maxs \<le> i + length mins
   \<Longrightarrow> span_loop vs ps maxs i mins = Inl IndexError"
proof (induction mins arbitrary: i)
  case Nil
  then show ?case by simp
next
  case (Cons v rest)
  show ?case
  proof (cases "np_index vs (int v - 1)")
    case (Inl err)
    then show ?thesis using np_index_error[OF Inl] by simp
  next
    case (Inr vr)
    show ?thesis
    proof (cases "Suc i \<ge> length maxs")
      case True
      with Inr show ?thesis by simp
    next
      case False
      with Cons.prems have "rest \<noteq> []" "length maxs \<le> Suc i + length rest" by auto
      from Cons.IH[OF this] Inr False show ?thesis by simp
    qed
  qed
qed

lemma find_extrema_trace_min_first:
  "find_extrema (voltage trace_min_first) = Inr ([1, 3], [2, 4])"
  by (simp add: find_extrema_def trace_min_first_def upt_rec_numeral)

text \<open>
  Claim C9. \<open>forc_calc\<close> is not total on traces with two or more local minima: whenever
  the scan finds at least two minima and no more maxima than minima, the loop over the
  minima reads \<^verbatim>\<open>maximaIndex[i + 1]\<close> out of range and the call ends in IndexError,
  whatever the library routines are. The check for two minima does not exclude it.
\<close>

theorem forc_calc_index_error:
  "find_extrema (voltage self) = Inr (minimaIndex, maximaIndex)
   \<and> 2 \<le> length minimaIndex \<and> length maximaIndex \<le> length minimaIndex
   \<longrightarrow> forc_calc griddata gradient2 uniform_filter self linear' filtIter = Inl IndexError"
proof
  assume a: "find_extrema (voltage self) = Inr (minimaIndex, maximaIndex)
    \<and> 2 \<le> length minimaIndex \<and> length maximaIndex \<le> length minimaIndex"
  then have "minimaIndex \<noteq> []" "length maximaIndex \<le> 0 + length minimaIndex" by auto
  from span_loop_too_few_maxima[OF this]
  have "forc_curves self = Inl IndexError" using a by (simp add: forc_curves_def)
  then show "forc_calc griddata gradient2 uniform_filter self linear' filtIter = Inl IndexError"
    by (simp add: forc_calc_def)
qed

theorem forc_calc_index_error_witness:
  "find_extrema (voltage trace_min_first) = Inr ([1, 3], [2, 4])
   \<and> forc_calc (\<lambda>x y z xi yi lin. Inr []) (\<lambda>g hr hc. Inr (g, g)) (\<lambda>g. g)
         trace_min_first True None = Inl IndexError"
  using forc_calc_index_error[of trace_min_first "[1, 3]" "[2, 4]"
      "\<lambda>x y z xi yi lin. Inr []" "\<lambda>g hr hc. Inr (g, g)" "\<lambda>g. g" True None]
    find_extrema_trace_min_first
  by simp


section \<open>Capacitance compensation\<close>

lemma np_diff_length: "length (np_diff vs) = length vs - 1"
  by (induction vs rule: np_diff.induct) simp_all

lemma mean_abs_dvdt_nonneg: "mean_abs_dvdt vs d = Some x \<Longrightarrow> 0 \<le> x"
proof -
  assume a: "mean_abs_dvdt vs d = Some x"
  have "0 \<le> sum_list (map (\<lambda>x. \<bar>x / d\<bar>) (np_diff vs))"
    by (rule sum_list_nonneg) auto
  with a show ?thesis
    by (auto simp: mean_abs_dvdt_def np_mean_def split: if_splits)
qed

lemma mean_abs_dvdt_ok:
  "d \<noteq> 0 \<Longrightarrow> 2 \<le> length vs \<Longrightarrow> \<exists>x. mean_abs_dvdt vs d = Some x"
proof -
  assume "d \<noteq> 0" "2 \<le> length vs"
  then have "np_diff vs \<noteq> []" using np_diff_length[of vs] by (cases "np_diff vs") auto
  with \<open>d \<noteq> 0\<close> show ?thesis by (simp add: mean_abs_dvdt_def np_mean_def)
qed

lemma threshold_Num:
  "threshold (Num k) i = Num (if \<bar>i\<bar> \<ge> k then i - sgn i * k else 0)"
  by (simp add: threshold_def)

lemma threshold_PosInf: "threshold PosInf i = Num 0"
  by (simp add: threshold_def)

lemma threshold_NaN: "threshold NaN i = Num 0"
  by (simp add: threshold_def)

lemma threshold_NegInf:
  "threshold NegInf i = (if 0 < i then PosInf else if i < 0 then NegInf else NaN)"
  by (simp add: threshold_def sgn_real_def)

lemma threshold_loop_Inr:
  "threshold_loop icap cur = Inr out
   \<Longrightarrow> length out = length cur \<and> (\<forall>j<length cur. threshold icap (cur ! j) = Num (out ! j))"
proof (induction cur arbitrary: out)
  case Nil
  then show ?case by simp
next
  case (Cons i rest)
  from Cons.prems obtain v out' where
    v: "threshold icap i = Num v" and r: "threshold_loop icap rest = Inr out'" and o: "out = v # out'"
    by (auto split: npfloat.splits sum.splits)
  from Cons.IH[OF r] have ih: "length out' = length rest"
    "\<forall>j<length rest. threshold icap (rest ! j) = Num (out' ! j)" by simp_all
  show ?case
  proof (intro conjI allI impI)
    show "length out = length (i # rest)" using ih o by simp
    fix j assume "j < length (i # rest)"
    then show "threshold icap ((i # rest) ! j) = Num (out ! j)"
      using v ih o by (cases j) simp_all
  qed
qed

lemma threshold_loop_NegInf: "threshold_loop NegInf cur = Inr out \<Longrightarrow> cur = []"
  by (cases cur) (auto simp: threshold_NegInf split: if_splits)

lemma threshold_loop_ok:
  "icap \<noteq> NegInf \<Longrightarrow> \<exists>out. threshold_loop icap cur = Inr out \<and> length out = length cur"
proof (induction cur)
  case Nil
  then show ?case by simp
next
  case (Cons i rest)
  then obtain out where o: "threshold_loop icap rest = Inr out" "length out = length rest" by blast
  from Cons.prems obtain v where "threshold icap i = Num v"
    by (cases icap) (simp_all add: threshold_Num threshold_PosInf threshold_NaN)
  with o show ?case by simp
qed

lemma threshold_point:
  fixes i k :: real
  assumes "0 \<le> k"
  defines "out \<equiv> (if \<bar>i\<bar> \<ge> k then i - sgn i * k else 0)"
  shows "\<bar>out\<bar> = max 0 (\<bar>i\<bar> - k)" and "out \<noteq> 0 \<Longrightarrow> sgn out = sgn i"
  using assms by (auto simp: sgn_real_def abs_real_def max_def split: if_splits)

lemma threshold_point_neg:
  fixes i k :: real
  assumes "k < 0"
  defines "out \<equiv> (if \<bar>i\<bar> \<ge> k then i - sgn i * k else 0)"
  shows "out = i - sgn i * k" and "i \<noteq> 0 \<Longrightarrow> \<bar>out\<bar> = \<bar>i\<bar> - k \<and> sgn out = sgn i"
    and "i = 0 \<Longrightarrow> out = 0"
  using assms by (auto simp: sgn_real_def abs_real_def split: if_splits)

lemma mean_abs_dvdt_float_cases:
  "(d \<noteq> 0 \<and> 2 \<le> length vs \<longrightarrow> (\<exists>x\<ge>0. mean_abs_dvdt_float vs d = Num x))
   \<and> (length vs < 2 \<longrightarrow> mean_abs_dvdt_float vs d = NaN)
   \<and> (d = 0 \<and> 2 \<le> length vs \<longrightarrow> mean_abs_dvdt_float vs d
         = (if list_all (\<lambda>x. x \<noteq> 0) (np_diff vs) then PosInf else NaN))"
proof (intro conjI impI)
  assume a: "d \<noteq> 0 \<and> 2 \<le> length vs"
  then obtain x where x: "mean_abs_dvdt vs d = Some x" using mean_abs_dvdt_ok by blast
  with mean_abs_dvdt_nonneg[OF x] show "\<exists>x\<ge>0. mean_abs_dvdt_float vs d = Num x"
    by (simp add: mean_abs_dvdt_float_def)
next
  assume "length vs < 2"
  then have "np_diff vs = []" using np_diff_length[of vs] by simp
  then show "mean_abs_dvdt_float vs d = NaN"
    by (simp add: mean_abs_dvdt_float_def mean_abs_dvdt_def np_mean_def)
next
  assume a: "d = 0 \<and> 2 \<le> length vs"
  then have "np_diff vs \<noteq> []" using np_diff_length[of vs] by (cases "np_diff vs") auto
  with a show "mean_abs_dvdt_float vs d
         = (if list_all (\<lambda>x. x \<noteq> 0) (np_diff vs) then PosInf else NaN)"
    by (simp add: mean_abs_dvdt_float_def mean_abs_dvdt_def)
qed


text \<open>
  Claim C3. Every sample that \<open>cCompensation\<close> returns was thresholded against the
  capacitive floor \<open>icap = c * mean |dV/dt|\<close>: each output current is \<open>I - sgn I * icap\<close>
  when \<open>|I| \<ge> icap\<close> and zero otherwise. For a floor \<open>icap \<ge> 0\<close> the output has the
  magnitude \<open>max 0 (|I| - icap)\<close> and, when it is not zero, the sign of the input. For a
  floor \<open>icap < 0\<close> (a negative capacitance) no sample is zeroed: an input that is not
  zero gives the magnitude \<open>|I| - icap\<close> with the sign of the input, and an input that is
  zero stays zero. When the floor is \<^verbatim>\<open>nan\<close> or \<^verbatim>\<open>inf\<close> the comparison fails for every
  sample and the whole output current is zero; against a floor of \<^verbatim>\<open>-inf\<close> the code
  stores \<^verbatim>\<open>inf\<close>, \<^verbatim>\<open>-inf\<close> or \<^verbatim>\<open>nan\<close>. The floor is a real number when \<open>dt\<close> is not zero
  and there are two voltages, \<^verbatim>\<open>nan\<close> with fewer than two voltages, and with \<open>dt = 0\<close> it
  is \<^verbatim>\<open>nan\<close> unless no two consecutive voltages are equal, when it is \<^verbatim>\<open>inf\<close>, \<^verbatim>\<open>-inf\<close> or
  \<^verbatim>\<open>nan\<close> with the sign of the capacitance. A sample is returned whenever the current
  array is not empty, the area is not zero when there are two currents, and the floor is
  not \<^verbatim>\<open>-inf\<close>.
\<close>

theorem cCompensation_threshold:
  "(\<forall>compData pr. cCompensation self data = Inr (compData, pr) \<longrightarrow>
      (let icap = np_times (film_c self) (mean_abs_dvdt_float (voltage data) (dt data)) in
       length (current compData) = length (current data)
       \<and> icap \<noteq> NegInf
       \<and> (\<forall>j < length (current data).
            (case icap of
               Num k \<Rightarrow>
                 (\<bar>current data ! j\<bar> \<ge> k \<longrightarrow>
                    current compData ! j = current data ! j - sgn (current data ! j) * k)
               \<and> (\<bar>current data ! j\<bar> < k \<longrightarrow> current compData ! j = 0)
               \<and> (0 \<le> k \<longrightarrow>
                    \<bar>current compData ! j\<bar> = max 0 (\<bar>current data ! j\<bar> - k)
                    \<and> (current compData ! j \<noteq> 0 \<longrightarrow>
                          sgn (current compData ! j) = sgn (current data ! j)))
               \<and> (k < 0 \<longrightarrow>
                    (current data ! j \<noteq> 0 \<longrightarrow>
                       \<bar>current compData ! j\<bar> = \<bar>current data ! j\<bar> - k
                       \<and> sgn (current compData ! j) = sgn (current data ! j))
                    \<and> (current data ! j = 0 \<longrightarrow> current compData ! j = 0))
             | _ \<Rightarrow> current compData ! j = 0))))
   \<and> (\<forall>i. threshold NegInf i = (if 0 < i then PosInf else if i < 0 then NegInf else NaN))
   \<and> (let icap = np_times (film_c self) (mean_abs_dvdt_float (voltage data) (dt data)) in
        (dt data \<noteq> 0 \<and> 2 \<le> length (voltage data) \<longrightarrow>
           (\<exists>x\<ge>0. mean_abs_dvdt (voltage data) (dt data) = Some x \<and> icap = Num (film_c self * x)))
        \<and> (length (voltage data) < 2 \<longrightarrow> icap = NaN)
        \<and> (dt data = 0 \<and> 2 \<le> length (voltage data) \<longrightarrow>
             icap = (if list_all (\<lambda>x. x \<noteq> 0) (np_diff (voltage data))
                     then (if film_c self > 0 then PosInf
                           else if film_c self < 0 then NegInf else NaN)
                     else NaN))
        \<and> (current data \<noteq> [] \<and> (2 \<le> length (current data) \<longrightarrow> area data \<noteq> 0)
               \<and> icap \<noteq> NegInf
             \<longrightarrow> (\<exists>compData pr. cCompensation self data = Inr (compData, pr))))"
proof -
  define icap where "icap = np_times (film_c self) (mean_abs_dvdt_float (voltage data) (dt data))"
  have A: "length (current compData) = length (current data)
       \<and> icap \<noteq> NegInf
       \<and> (\<forall>j < length (current data).
            (case icap of
               Num k \<Rightarrow>
                 (\<bar>current data ! j\<bar> \<ge> k \<longrightarrow>
                    current compData ! j = current data ! j - sgn (current data ! j) * k)
               \<and> (\<bar>current data ! j\<bar> < k \<longrightarrow> current compData ! j = 0)
               \<and> (0 \<le> k \<longrightarrow>
                    \<bar>current compData ! j\<bar> = max 0 (\<bar>current data ! j\<bar> - k)
                    \<and> (current compData ! j \<noteq> 0 \<longrightarrow>
                          sgn (current compData ! j) = sgn (current data ! j)))
               \<and> (k < 0 \<longrightarrow>
                    (current data ! j \<noteq> 0 \<longrightarrow>
                       \<bar>current compData ! j\<bar> = \<bar>current data ! j\<bar> - k
                       \<and> sgn (current compData ! j) = sgn (current data ! j))
                    \<and> (current data ! j = 0 \<longrightarrow> current compData ! j = 0))
             | _ \<Rightarrow> current compData ! j = 0))"
    if ret: "cCompensation self data = Inr (compData, pr)" for compData pr
  proof -
    from ret obtain cur tp mx where
      tl: "threshold_loop icap (current data) = Inr cur" and
      tp: "testpol_of cur (dt data) (area data) = Inr tp" and
      mx: "py_max tp = Inr mx" and
      cd: "current compData = cur"
      unfolding icap_def by (auto simp: cCompensation_def Let_def split: sum.splits)
    from mx have "tp \<noteq> []" by (rule py_max_Inr)
    with testpol_of_Nil_iff[OF tp] have cne: "cur \<noteq> []" by simp
    from threshold_loop_Inr[OF tl] have len: "length cur = length (current data)"
      and pt: "\<forall>j<length (current data). threshold icap (current data ! j) = Num (cur ! j)"
      by simp_all
    have nn: "icap \<noteq> NegInf"
    proof
      assume "icap = NegInf"
      with tl have "current data = []" by (simp add: threshold_loop_NegInf)
      with len cne show False by simp
    qed
    have pw: "(case icap of
               Num k \<Rightarrow>
                 (\<bar>current data ! j\<bar> \<ge> k \<longrightarrow>
                    current compData ! j = current data ! j - sgn (current data ! j) * k)
               \<and> (\<bar>current data ! j\<bar> < k \<longrightarrow> current compData ! j = 0)
               \<and> (0 \<le> k \<longrightarrow>
                    \<bar>current compData ! j\<bar> = max 0 (\<bar>current data ! j\<bar> - k)
                    \<and> (current compData ! j \<noteq> 0 \<longrightarrow>
                          sgn (current compData ! j) = sgn (current data ! j)))
               \<and> (k < 0 \<longrightarrow>
                    (current data ! j \<noteq> 0 \<longrightarrow>
                       \<bar>current compData ! j\<bar> = \<bar>current data ! j\<bar> - k
                       \<and> sgn (current compData ! j) = sgn (current data ! j))
                    \<and> (current data ! j = 0 \<longrightarrow> current compData ! j = 0))
             | _ \<Rightarrow> current compData ! j = 0)"
      if j: "j < length (current data)" for j
    proof (cases icap)
      case (Num k)
      from pt j Num have e: "current compData ! j
          = (if \<bar>current data ! j\<bar> \<ge> k then current data ! j - sgn (current data ! j) * k else 0)"
        by (simp add: threshold_Num cd)
      have p: "0 \<le> k \<longrightarrow>
                    \<bar>current compData ! j\<bar> = max 0 (\<bar>current data ! j\<bar> - k)
                    \<and> (current compData ! j \<noteq> 0 \<longrightarrow>
                          sgn (current compData ! j) = sgn (current data ! j))"
        unfolding e using threshold_point[of k "current data ! j"] by blast
      have n: "k < 0 \<longrightarrow>
                    (current data ! j \<noteq> 0 \<longrightarrow>
                       \<bar>current compData ! j\<bar> = \<bar>current data ! j\<bar> - k
                       \<and> sgn (current compData ! j) = sgn (current data ! j))
                    \<and> (current data ! j = 0 \<longrightarrow> current compData ! j = 0)"
        unfolding e using threshold_point_neg[of k "current data ! j"] by blast
      have b: "(\<bar>current data ! j\<bar> \<ge> k \<longrightarrow>
                    current compData ! j = current data ! j - sgn (current data ! j) * k)"
         "(\<bar>current data ! j\<bar> < k \<longrightarrow> current compData ! j = 0)"
        unfolding e by simp_all
      from b p n show ?thesis unfolding Num by simp
    next
      case PosInf
      with pt j show ?thesis by (simp add: threshold_PosInf cd)
    next
      case NegInf
      with nn show ?thesis by simp
    next
      case NaN
      with pt j show ?thesis by (simp add: threshold_NaN cd)
    qed
    from len cd nn pw show ?thesis by simp
  qed
  have B: "\<forall>i. threshold NegInf i = (if 0 < i then PosInf else if i < 0 then NegInf else NaN)"
    by (simp add: threshold_NegInf)
  note m = mean_abs_dvdt_float_cases[of "dt data" "voltage data"]
  have C1: "dt data \<noteq> 0 \<and> 2 \<le> length (voltage data) \<longrightarrow>
           (\<exists>x\<ge>0. mean_abs_dvdt (voltage data) (dt data) = Some x \<and> icap = Num (film_c self * x))"
  proof
    assume a: "dt data \<noteq> 0 \<and> 2 \<le> length (voltage data)"
    then obtain x where x: "mean_abs_dvdt (voltage data) (dt data) = Some x"
      using mean_abs_dvdt_ok by blast
    from mean_abs_dvdt_nonneg[OF x] x
    show "\<exists>x\<ge>0. mean_abs_dvdt (voltage data) (dt data) = Some x \<and> icap = Num (film_c self * x)"
      by (simp add: icap_def mean_abs_dvdt_float_def)
  qed
  have C2: "length (voltage data) < 2 \<longrightarrow> icap = NaN"
    using m by (simp add: icap_def)
  have C3: "dt data = 0 \<and> 2 \<le> length (voltage data) \<longrightarrow>
             icap = (if list_all (\<lambda>x. x \<noteq> 0) (np_diff (voltage data))
                     then (if film_c self > 0 then PosInf
                           else if film_c self < 0 then NegInf else NaN)
                     else NaN)"
    using m by (simp add: icap_def)
  have E: "current data \<noteq> [] \<and> (2 \<le> length (current data) \<longrightarrow> area data \<noteq> 0)
               \<and> icap \<noteq> NegInf
             \<longrightarrow> (\<exists>compData pr. cCompensation self data = Inr (compData, pr))"
  proof
    assume h: "current data \<noteq> [] \<and> (2 \<le> length (current data) \<longrightarrow> area data \<noteq> 0)
               \<and> icap \<noteq> NegInf"
    then obtain cur where cur: "threshold_loop icap (current data) = Inr cur"
      "length cur = length (current data)" using threshold_loop_ok by blast
    with h obtain c0 cs where c: "cur = c0 # cs" by (cases cur) auto
    with cur h have "cs \<noteq> [] \<longrightarrow> area data \<noteq> 0" by (cases cs) auto
    with c obtain tp where tp: "testpol_of cur (dt data) (area data) = Inr tp" "tp \<noteq> []"
      by (auto simp: testpol_of_def)
    then obtain mx mn where "py_max tp = Inr mx" "py_min tp = Inr mn"
      using py_max_ok[of tp] py_min_ok[of tp] by blast
    with cur tp have "cCompensation self data =
      Inr (data\<lparr>current := cur, polarization := map (\<lambda>p. p - (mx - (mx - mn) / 2)) tp\<rparr>,
           (mx - mn) / 2)"
      by (simp add: cCompensation_def Let_def icap_def[symmetric])
    then show "\<exists>compData pr. cCompensation self data = Inr (compData, pr)" by blast
  qed
  show ?thesis unfolding Let_def icap_def[symmetric]
    by (intro A B C1 C2 C3 E conjI allI impI)
qed


lemma cCompensation_ramp_sample: "cCompensation film1 ramp_sample =
   Inr (ramp_sample\<lparr>current := [1, 0, 0, - 3], polarization := [3 / 2, 3 / 2, 3 / 2, - (3 / 2)]\<rparr>, 3 / 2)"
  by (simp add: cCompensation_def ramp_sample_def film1_def mean_abs_dvdt_float_def mean_abs_dvdt_def
      np_mean_def threshold_def testpol_of_def py_max_def py_min_def)

lemma icap_ramp_sample:
  "np_times (film_c film1) (mean_abs_dvdt_float (voltage ramp_sample) (dt ramp_sample)) = Num 2"
  by (simp add: ramp_sample_def film1_def mean_abs_dvdt_float_def mean_abs_dvdt_def np_mean_def)

theorem cCompensation_threshold_witness:
  "cCompensation film1 ramp_sample =
     Inr (ramp_sample\<lparr>current := [1, 0, 0, - 3], polarization := [3 / 2, 3 / 2, 3 / 2, - (3 / 2)]\<rparr>, 3 / 2)
   \<and> np_times (film_c film1) (mean_abs_dvdt_float (voltage ramp_sample) (dt ramp_sample)) = Num 2
   \<and> (3::nat) < length (current ramp_sample)
   \<and> \<bar>current ramp_sample ! 3\<bar> \<ge> 2
   \<and> [1, 0, 0, - 3 :: real] ! 3 = current ramp_sample ! 3 - sgn (current ramp_sample ! 3) * 2
   \<and> \<bar>[1, 0, 0, - 3 :: real] ! 3\<bar> = max 0 (\<bar>current ramp_sample ! 3\<bar> - 2)"
proof -
  have l: "(3::nat) < length (current ramp_sample)" by (simp add: ramp_sample_def)
  have g: "\<bar>current ramp_sample ! 3\<bar> \<ge> 2" by (simp add: ramp_sample_def)
  have z: "(0::real) \<le> 2" by simp
  note t = cCompensation_threshold[of film1 ramp_sample, THEN conjunct1, THEN spec, THEN spec,
      THEN mp, OF cCompensation_ramp_sample, unfolded Let_def icap_ramp_sample,
      THEN conjunct2, THEN conjunct2, THEN spec, THEN mp, OF l, unfolded npfloat.case]
  from t[THEN conjunct1, THEN mp, OF g]
  have a: "[1, 0, 0, - 3 :: real] ! 3 = current ramp_sample ! 3 - sgn (current ramp_sample ! 3) * 2"
    by simp
  from t[THEN conjunct2, THEN conjunct2, THEN conjunct1, THEN mp, OF z, THEN conjunct1]
  have b: "\<bar>[1, 0, 0, - 3 :: real] ! 3\<bar> = max 0 (\<bar>current ramp_sample ! 3\<bar> - 2)"
    by simp
  from cCompensation_ramp_sample icap_ramp_sample l g a b show ?thesis by (intro conjI)
qed

text \<open>With a negative capacitance the floor is negative and every sample passes the
  comparison: a current sample that is zero stays zero, where \<open>max 0 (|I| - icap)\<close> is
  \<open>- icap > 0\<close>.\<close>

theorem cCompensation_negative_floor:
  "cCompensation film_neg ramp_sample =
     Inr (ramp_sample\<lparr>current := [5, - 3, 0, - 7], polarization := [5, 2, 2, - 5]\<rparr>, 5)
   \<and> np_times (film_c film_neg) (mean_abs_dvdt_float (voltage ramp_sample) (dt ramp_sample))
       = Num (- 2)
   \<and> current ramp_sample ! 2 = 0
   \<and> \<bar>[5, - 3, 0, - 7 :: real] ! 2\<bar> \<noteq> max 0 (\<bar>current ramp_sample ! 2\<bar> - (- 2))"
  by (simp add: cCompensation_def ramp_sample_def film_neg_def mean_abs_dvdt_float_def mean_abs_dvdt_def
      np_mean_def threshold_def testpol_of_def py_max_def py_min_def)

section \<open>FORC extraction: the normalised density\<close>















lemma forc_curves_trace_max_first:
  "forc_curves trace_max_first = Inr ([6, 6, 7, 7], [1, 2, 0, 3], [12, 13, 15, 16])"
  by code_simp








section \<open>FORC extraction: the reversal field of a span\<close>

lemma extrema_loop_range:
  "extrema_loop vs idx mins maxs = Inr (mins', maxs')
   \<Longrightarrow> \<forall>i \<in> set mins \<union> set maxs. 0 < i \<and> Suc i < length vs
   \<Longrightarrow> \<forall>i \<in> set mins' \<union> set maxs'. 0 < i \<and> Suc i < length vs"
proof (induction vs idx mins maxs rule: extrema_loop.induct)
  case (1 vs minimaIndex maximaIndex)
  then show ?case by simp
next
  case (2 vs i rest minimaIndex maximaIndex)
  show ?case
  proof (cases "i = 0")
    case True
    with 2 show ?thesis by simp
  next
    case i0: False
    show ?thesis
    proof (cases "int i = int (length vs) - 2")
      case True
      with i0 2 show ?thesis by simp
    next
      case n2: False
      show ?thesis
      proof (cases "Suc i \<ge> length vs")
        case True
        with i0 n2 "2.prems" show ?thesis by simp
      next
        case False
        let ?mins = "(if vs ! i < vs ! (i - 1) \<and> vs ! i < vs ! (i + 1)
                            then minimaIndex @ [i] else minimaIndex)"
        let ?maxs = "(if vs ! i > vs ! (i - 1) \<and> vs ! i > vs ! (i + 1)
                            then maximaIndex @ [i] else maximaIndex)"
        from i0 n2 False "2.prems"(1)
        have r: "extrema_loop vs rest ?mins ?maxs = Inr (mins', maxs')" by (simp add: Let_def)
        have inv: "\<forall>k \<in> set ?mins \<union> set ?maxs. 0 < k \<and> Suc k < length vs"
          using "2.prems"(2) i0 False by auto
        from "2.IH"(2)[OF i0 n2 False refl refl refl r inv] show ?thesis .
      qed
    qed
  qed
qed

lemma find_extrema_range:
  "find_extrema vs = Inr (mins, maxs) \<Longrightarrow> \<forall>i \<in> set mins \<union> set maxs. 0 < i \<and> Suc i < length vs"
  unfolding find_extrema_def by (drule extrema_loop_range) auto

lemma np_index_pred: "0 < v \<Longrightarrow> v < length vs \<Longrightarrow> np_index vs (int v - 1) = Inr (vs ! (v - 1))"
  by (auto simp: np_index_def nat_diff_distrib')

lemma span_loop_spans:
  "span_loop vs ps maxs i mins = Inr (vr, vf, pf)
   \<Longrightarrow> \<forall>v \<in> set mins. 0 < v \<and> v < length vs
   \<Longrightarrow> length (zip mins (drop (Suc i) maxs)) = length mins
     \<and> vr = concat (map (\<lambda>(v, m). replicate (m - v) (vs ! (v - 1))) (zip mins (drop (Suc i) maxs)))
     \<and> vf = concat (map (\<lambda>(v, m). py_slice vs v m) (zip mins (drop (Suc i) maxs)))
     \<and> pf = concat (map (\<lambda>(v, m). py_slice ps v m) (zip mins (drop (Suc i) maxs)))"
proof (induction mins arbitrary: i vr vf pf)
  case Nil
  then show ?case by simp
next
  case (Cons v rest)
  from Cons.prems(2) have v: "0 < v" "v < length vs" by auto
  then have ix: "np_index vs (int v - 1) = Inr (vs ! (v - 1))" by (rule np_index_pred)
  from Cons.prems(1) ix have lt: "Suc i < length maxs" by (auto split: if_splits)
  with Cons.prems(1) ix obtain vr' vf' pf' where
    r: "span_loop vs ps maxs (Suc i) rest = Inr (vr', vf', pf')" and
    e: "vr = replicate (maxs ! Suc i - v) (vs ! (v - 1)) @ vr'"
       "vf = py_slice vs v (maxs ! Suc i) @ vf'"
       "pf = py_slice ps v (maxs ! Suc i) @ pf'"
    by (auto simp: Let_def split: sum.splits)
  from Cons.prems(2) have "\<forall>v \<in> set rest. 0 < v \<and> v < length vs" by simp
  from Cons.IH[OF r this] have ih:
    "length (zip rest (drop (Suc (Suc i)) maxs)) = length rest"
    "vr' = concat (map (\<lambda>(v, m). replicate (m - v) (vs ! (v - 1))) (zip rest (drop (Suc (Suc i)) maxs)))"
    "vf' = concat (map (\<lambda>(v, m). py_slice vs v m) (zip rest (drop (Suc (Suc i)) maxs)))"
    "pf' = concat (map (\<lambda>(v, m). py_slice ps v m) (zip rest (drop (Suc (Suc i)) maxs)))"
    by simp_all
  have d: "drop (Suc i) maxs = maxs ! Suc i # drop (Suc (Suc i)) maxs"
    using lt by (simp add: Cons_nth_drop_Suc)
  show ?case unfolding d using e ih by simp
qed

lemma py_slice_length: "m \<le> length xs \<Longrightarrow> length (py_slice xs v m) = m - v"
  by (simp add: py_slice_def)

lemma to_field_map: "to_field xs t = Inr ys \<Longrightarrow> ys = map (\<lambda>x. x / t) xs"
  by (auto simp: to_field_def split: if_splits)

text \<open>
  Claim C5, as the code has it. The loop emits one span per minimum, from the minimum
  \<open>v\<close> up to (not including) the maximum \<open>maximaIndex[i + 1]\<close>. The reversal field
  assigned to every point of that span is constant along the span and equals the field of
  the sample just before the minimum, \<open>voltage[v - 1] / thickness\<close>; it is not the field
  at the minimum itself.
\<close>

theorem forc_curves_reversal_field:
  "find_extrema (voltage self) = Inr (minimaIndex, maximaIndex)
   \<and> forc_curves self = Inr (vrFORC, vFORC, pFORC)
   \<and> to_field vrFORC (thickness self) = Inr erFORC
   \<longrightarrow> (let spans = zip minimaIndex (tl maximaIndex) in
         length spans = length minimaIndex
       \<and> (\<forall>(v, m) \<in> set spans. 0 < v \<and> v < length (voltage self))
       \<and> vFORC = concat (map (\<lambda>(v, m). py_slice (voltage self) v m) spans)
       \<and> erFORC = concat (map (\<lambda>(v, m). replicate (length (py_slice (voltage self) v m))
                                          (voltage self ! (v - 1) / thickness self)) spans))"
proof
  assume a: "find_extrema (voltage self) = Inr (minimaIndex, maximaIndex)
   \<and> forc_curves self = Inr (vrFORC, vFORC, pFORC)
   \<and> to_field vrFORC (thickness self) = Inr erFORC"
  let ?vs = "voltage self"
  let ?spans = "zip minimaIndex (tl maximaIndex)"
  from a have rng: "\<forall>i \<in> set minimaIndex \<union> set maximaIndex. 0 < i \<and> Suc i < length ?vs"
    using find_extrema_range by blast
  then have mins: "\<forall>v \<in> set minimaIndex. 0 < v \<and> v < length ?vs"
    by (meson Suc_lessD UnI1)
  from a have sl: "span_loop ?vs (polarization self) maximaIndex 0 minimaIndex = Inr (vrFORC, vFORC, pFORC)"
    by (auto simp: forc_curves_def split: if_splits)
  have dr: "drop (Suc 0) maximaIndex = tl maximaIndex" by (simp add: drop_Suc)
  from span_loop_spans[OF sl mins] have sp:
    "length ?spans = length minimaIndex"
    "vrFORC = concat (map (\<lambda>(v, m). replicate (m - v) (?vs ! (v - 1))) ?spans)"
    "vFORC = concat (map (\<lambda>(v, m). py_slice ?vs v m) ?spans)"
    unfolding dr by simp_all
  have inspan: "\<forall>(v, m) \<in> set ?spans. 0 < v \<and> v < length ?vs \<and> m \<le> length ?vs"
  proof (clarify)
    fix v m assume "(v, m) \<in> set ?spans"
    then have "v \<in> set minimaIndex" "m \<in> set (tl maximaIndex)" by (auto dest: set_zip_leftD set_zip_rightD)
    then have "v \<in> set minimaIndex" "m \<in> set maximaIndex"
      by (cases maximaIndex; simp)+
    with rng have "0 < v \<and> Suc v < length ?vs" "Suc m < length ?vs" by blast+
    then show "0 < v \<and> v < length ?vs \<and> m \<le> length ?vs" by simp
  qed
  have meq: "map (\<lambda>(v, m). replicate (m - v) (?vs ! (v - 1))) ?spans
      = map (\<lambda>(v, m). replicate (length (py_slice ?vs v m)) (?vs ! (v - 1))) ?spans"
    using inspan by (auto simp: py_slice_length)
  from sp(2) have vr: "vrFORC = concat (map (\<lambda>(v, m). replicate (length (py_slice ?vs v m)) (?vs ! (v - 1))) ?spans)"
    by (simp only: meq)
  from a have "erFORC = map (\<lambda>x. x / thickness self) vrFORC" using to_field_map by blast
  then have er: "erFORC = concat (map (\<lambda>(v, m). replicate (length (py_slice ?vs v m))
                                          (?vs ! (v - 1) / thickness self)) ?spans)"
    unfolding vr by (simp add: map_concat comp_def case_prod_unfold)
  from sp(1) sp(3) er inspan
  show "let spans = zip minimaIndex (tl maximaIndex) in
         length spans = length minimaIndex
       \<and> (\<forall>(v, m) \<in> set spans. 0 < v \<and> v < length (voltage self))
       \<and> vFORC = concat (map (\<lambda>(v, m). py_slice (voltage self) v m) spans)
       \<and> erFORC = concat (map (\<lambda>(v, m). replicate (length (py_slice (voltage self) v m))
                                          (voltage self ! (v - 1) / thickness self)) spans)"
    unfolding Let_def by auto
qed


lemma find_extrema_trace_max_first:
  "find_extrema (voltage trace_max_first) = Inr ([2, 5], [1, 4, 7])"
  by (simp add: find_extrema_def trace_max_first_def upt_rec_numeral)

lemma to_field_trace_max_first:
  "to_field [6, 6, 7, 7] (thickness trace_max_first) = Inr [3, 3, 7 / 2, 7 / 2]"
  by (simp add: to_field_def trace_max_first_def)

theorem forc_curves_reversal_field_witness:
  "find_extrema (voltage trace_max_first) = Inr ([2, 5], [1, 4, 7])
   \<and> forc_curves trace_max_first = Inr ([6, 6, 7, 7], [1, 2, 0, 3], [12, 13, 15, 16])
   \<and> to_field [6, 6, 7, 7] (thickness trace_max_first) = Inr [3, 3, 7 / 2, 7 / 2]
   \<and> [3, 3, 7 / 2, 7 / 2]
       = concat (map (\<lambda>(v, m). replicate (length (py_slice (voltage trace_max_first) v m))
                   (voltage trace_max_first ! (v - 1) / thickness trace_max_first))
                 (zip [2, 5] (tl [1, 4, 7])))"
  using forc_curves_reversal_field[of trace_max_first "[2, 5]" "[1, 4, 7]" "[6, 6, 7, 7]"
      "[1, 2, 0, 3]" "[12, 13, 15, 16]" "[3, 3, 7 / 2, 7 / 2]"]
    find_extrema_trace_max_first forc_curves_trace_max_first to_field_trace_max_first
  by (simp add: Let_def)

text \<open>The first span of this trace starts at the minimum at index 2, where the field is
  \<open>1 / 2\<close>; the reversal field of its points is \<open>3\<close>, the field at index 1.\<close>

theorem forc_reversal_field_not_at_minimum:
  "find_extrema (voltage trace_max_first) = Inr ([2, 5], [1, 4, 7])
   \<and> forc_curves trace_max_first = Inr ([6, 6, 7, 7], [1, 2, 0, 3], [12, 13, 15, 16])
   \<and> to_field [6, 6, 7, 7] (thickness trace_max_first) = Inr [3, 3, 7 / 2, 7 / 2]
   \<and> voltage trace_max_first ! 2 / thickness trace_max_first = 1 / 2
   \<and> [3, 3, 7 / 2, 7 / 2] ! 0 \<noteq> voltage trace_max_first ! 2 / thickness trace_max_first"
  using find_extrema_trace_max_first forc_curves_trace_max_first to_field_trace_max_first
  by (simp add: trace_max_first_def)


section \<open>Domain generation\<close>

lemma length_concat_rect:
  "list_all (\<lambda>row. length row = ncols) g \<Longrightarrow> length (concat g) = length g * ncols"
  by (induction g) simp_all

lemma nth_concat_rect:
  "list_all (\<lambda>row. length row = ncols) g \<Longrightarrow> j < length g * ncols
   \<Longrightarrow> concat g ! j = g ! (j div ncols) ! (j mod ncols)"
proof (induction g arbitrary: j)
  case Nil
  then show ?case by simp
next
  case (Cons row g)
  then have len: "length row = ncols" and rest: "list_all (\<lambda>row. length row = ncols) g" by simp_all
  show ?case
  proof (cases "j < ncols")
    case True
    then show ?thesis using len by (simp add: nth_append)
  next
    case False
    then have ge: "ncols \<le> j" by simp
    from Cons.prems(2) False have n0: "0 < ncols" by (cases ncols) auto
    from Cons.prems(2) ge have lt: "j - ncols < length g * ncols" by simp
    have d: "j div ncols = Suc ((j - ncols) div ncols)" using ge n0 by (simp add: le_div_geq)
    have m: "j mod ncols = (j - ncols) mod ncols" using ge by (simp add: le_mod_geq)
    from Cons.IH[OF rest lt] show ?thesis using len False by (simp add: nth_append d m)
  qed
qed

lemma filled0_rect:
  "list_all (\<lambda>row. length row = ncols) g \<Longrightarrow> list_all (\<lambda>row. length row = ncols) (filled0 g)"
  by (induction g) (simp_all add: filled0_def)

lemma filled0_nth:
  "r < length g \<Longrightarrow> c < length (g ! r)
   \<Longrightarrow> filled0 g ! r ! c = (case g ! r ! c of None \<Rightarrow> 0 | Some x \<Rightarrow> x)"
  by (simp add: filled0_def)

lemma domain_loop_ok:
  assumes "choice_check (concat g) = None" and "g = row # rows" and "length row = ncols"
    and "0 < ncols"
    and "\<forall>i \<in> set idx. draws i mod ncols < length e \<and> draws i div ncols < length er"
  shows "domain_loop self e er idx g n draws =
     Inr (map (\<lambda>i. LandauDomain_init self (film_area self / real n)
                  ((e ! (draws i mod ncols) - er ! (draws i div ncols)) / 2)
                  ((e ! (draws i mod ncols) + er ! (draws i div ncols)) / 2)) idx,
          map (\<lambda>i. [e ! (draws i mod ncols), er ! (draws i div ncols),
                  (e ! (draws i mod ncols) - er ! (draws i div ncols)) / 2,
                  (e ! (draws i mod ncols) + er ! (draws i div ncols)) / 2]) idx)"
  using assms(5)
proof (induction idx)
  case Nil
  show ?case by simp
next
  case (Cons i rest)
  then have b: "draws i mod ncols < length e" "draws i div ncols < length er" by simp_all
  from Cons have ih: "domain_loop self e er rest g n draws =
     Inr (map (\<lambda>i. LandauDomain_init self (film_area self / real n)
                  ((e ! (draws i mod ncols) - er ! (draws i div ncols)) / 2)
                  ((e ! (draws i mod ncols) + er ! (draws i div ncols)) / 2)) rest,
          map (\<lambda>i. [e ! (draws i mod ncols), er ! (draws i div ncols),
                  (e ! (draws i mod ncols) - er ! (draws i div ncols)) / 2,
                  (e ! (draws i mod ncols) + er ! (draws i div ncols)) / 2]) rest)"
    by simp
  show ?case
    using assms(1-4) b ih by (simp add: np_index_def Let_def)
qed

text \<open>
  Claim C6. For a rectangular density grid with \<open>ncols\<close> columns whose axes \<open>e\<close> and
  \<open>er\<close> have its dimensions, valid probabilities and draws that \<^verbatim>\<open>np.random.choice\<close>
  can return, \<open>domainGen\<close> returns \<open>n\<close> domains; the domain of draw \<open>j\<close> has
  \<open>E = e[j mod ncols]\<close>, \<open>Er = er[j div ncols]\<close>, \<open>ec = (E - Er) / 2\<close>,
  \<open>ebias = (E + Er) / 2\<close>, the area \<open>film area / n\<close> and the film's \<open>pr\<close>. When
  the grid has a single non-zero cell \<open>(r, c)\<close>, every domain has the \<open>ec\<close> and \<open>ebias\<close>
  of \<open>E = e[c]\<close> and \<open>Er = er[r]\<close>.
\<close>

theorem domainGen_domains:
  assumes "rectangular prob ncols" and "length e = ncols" and "length er = length prob"
    and "choice_check (concat (filled0 prob)) = None"
    and "\<forall>i<n. possible_draw (concat (filled0 prob)) (draws i)"
  shows "\<exists>domainList domains.
      domainGen self e er prob n draws = Inr (domainList, domains)
    \<and> length domainList = n
    \<and> (\<forall>i<n. ec (domainList ! i) = (e ! (draws i mod ncols) - er ! (draws i div ncols)) / 2
            \<and> ebias (domainList ! i) = (e ! (draws i mod ncols) + er ! (draws i div ncols)) / 2
            \<and> dom_area (domainList ! i) = film_area self / real n
            \<and> dom_pr (domainList ! i) = film_pr self)
    \<and> (\<forall>r c. r < length prob \<and> c < ncols
            \<and> (\<forall>r' c'. r' < length prob \<and> c' < ncols \<and> (r', c') \<noteq> (r, c)
                   \<longrightarrow> prob ! r' ! c' = None \<or> prob ! r' ! c' = Some 0)
          \<longrightarrow> (\<forall>i<n. ec (domainList ! i) = (e ! c - er ! r) / 2
                   \<and> ebias (domainList ! i) = (e ! c + er ! r) / 2))"
proof -
  let ?g = "filled0 prob"
  let ?probf = "concat ?g"
  from assms(1) have ne: "prob \<noteq> []" and rect: "list_all (\<lambda>row. length row = ncols) prob"
    by (simp_all add: rectangular_def)
  have rectg: "list_all (\<lambda>row. length row = ncols) ?g" using rect by (rule filled0_rect)
  have lg: "length ?g = length prob" by (simp add: filled0_def)
  have lp: "length ?probf = length prob * ncols" using length_concat_rect[OF rectg] lg by simp
  from assms(4) have "?probf \<noteq> []" by (auto simp: choice_check_def split: if_splits)
  with lp have n0: "0 < ncols" by (cases ncols) auto
  from ne obtain row rows where g: "?g = row # rows" by (cases prob) (auto simp: filled0_def)
  with rectg have lrow: "length row = ncols" by simp
  have dr: "\<forall>i<n. draws i < length prob * ncols" using assms(5) lp by (simp add: possible_draw_def)
  have bounds: "\<forall>i \<in> set [0..<n]. draws i mod ncols < length e \<and> draws i div ncols < length er"
  proof
    fix i assume "i \<in> set [0..<n]"
    then have "draws i < length prob * ncols" using dr by simp
    then have "draws i div ncols < length prob" using n0 by (simp add: less_mult_imp_div_less)
    then show "draws i mod ncols < length e \<and> draws i div ncols < length er"
      using assms(2,3) n0 by simp
  qed
  let ?dl = "map (\<lambda>i. LandauDomain_init self (film_area self / real n)
                  ((e ! (draws i mod ncols) - er ! (draws i div ncols)) / 2)
                  ((e ! (draws i mod ncols) + er ! (draws i div ncols)) / 2)) [0..<n]"
  let ?dm = "map (\<lambda>i. [e ! (draws i mod ncols), er ! (draws i div ncols),
                  (e ! (draws i mod ncols) - er ! (draws i div ncols)) / 2,
                  (e ! (draws i mod ncols) + er ! (draws i div ncols)) / 2]) [0..<n]"
  have run: "domainGen self e er prob n draws = Inr (?dl, ?dm)"
    unfolding domainGen_def by (rule domain_loop_ok[OF assms(4) g lrow n0 bounds])
  have each: "\<forall>i<n. ec (?dl ! i) = (e ! (draws i mod ncols) - er ! (draws i div ncols)) / 2
            \<and> ebias (?dl ! i) = (e ! (draws i mod ncols) + er ! (draws i div ncols)) / 2
            \<and> dom_area (?dl ! i) = film_area self / real n
            \<and> dom_pr (?dl ! i) = film_pr self"
    by (simp add: LandauDomain_init_def)
  have one: "\<forall>r c. r < length prob \<and> c < ncols
            \<and> (\<forall>r' c'. r' < length prob \<and> c' < ncols \<and> (r', c') \<noteq> (r, c)
                   \<longrightarrow> prob ! r' ! c' = None \<or> prob ! r' ! c' = Some 0)
          \<longrightarrow> (\<forall>i<n. ec (?dl ! i) = (e ! c - er ! r) / 2
                   \<and> ebias (?dl ! i) = (e ! c + er ! r) / 2)"
  proof (intro allI impI)
    fix r c i
    assume h: "r < length prob \<and> c < ncols
            \<and> (\<forall>r' c'. r' < length prob \<and> c' < ncols \<and> (r', c') \<noteq> (r, c)
                   \<longrightarrow> prob ! r' ! c' = None \<or> prob ! r' ! c' = Some 0)"
      and i: "i < n"
    let ?j = "draws i"
    from dr i have jl: "?j < length prob * ncols" by simp
    then have rl: "?j div ncols < length prob" using n0 by (simp add: less_mult_imp_div_less)
    have cl: "?j mod ncols < ncols" using n0 by simp
    have rowlen: "length (prob ! (?j div ncols)) = ncols"
      using rect rl by (simp add: list_all_length)
    from assms(5) i have pos: "0 < ?probf ! ?j" by (simp add: possible_draw_def)
    have "?probf ! ?j = ?g ! (?j div ncols) ! (?j mod ncols)"
      using nth_concat_rect[OF rectg] jl lg by simp
    also have "\<dots> = (case prob ! (?j div ncols) ! (?j mod ncols) of None \<Rightarrow> 0 | Some x \<Rightarrow> x)"
      using filled0_nth[OF rl] cl rowlen by simp
    finally have nz: "(case prob ! (?j div ncols) ! (?j mod ncols) of None \<Rightarrow> 0 | Some x \<Rightarrow> x) \<noteq> 0"
      using pos by simp
    have "(?j div ncols, ?j mod ncols) = (r, c)"
    proof (rule ccontr)
      assume "(?j div ncols, ?j mod ncols) \<noteq> (r, c)"
      with h rl cl have "prob ! (?j div ncols) ! (?j mod ncols) = None
          \<or> prob ! (?j div ncols) ! (?j mod ncols) = Some 0" by blast
      with nz show False by auto
    qed
    then have rc: "?j div ncols = r" "?j mod ncols = c" by simp_all
    from each i have "ec (?dl ! i) = (e ! (?j mod ncols) - er ! (?j div ncols)) / 2"
      "ebias (?dl ! i) = (e ! (?j mod ncols) + er ! (?j div ncols)) / 2" by blast+
    then show "ec (?dl ! i) = (e ! c - er ! r) / 2 \<and> ebias (?dl ! i) = (e ! c + er ! r) / 2"
      unfolding rc by blast
  qed
  have "length ?dl = n" by simp
  with run each one show ?thesis by blast
qed

lemma one_cell_grid_inputs:
  "rectangular one_cell_grid 3" "length [10, 20, 30 :: real] = 3"
  "length [1, 2 :: real] = length one_cell_grid"
  "choice_check (concat (filled0 one_cell_grid)) = None"
  "\<forall>i<(2::nat). possible_draw (concat (filled0 one_cell_grid)) ((\<lambda>i. 4) i)"
  by (simp_all add: rectangular_def one_cell_grid_def choice_check_def filled0_def
      possible_draw_def)

lemma one_cell_grid_draw: "possible_draw (concat (filled0 one_cell_grid)) 4"
  by (simp add: one_cell_grid_def filled0_def possible_draw_def)

theorem domainGen_domains_witness:
  "rectangular one_cell_grid 3
   \<and> choice_check (concat (filled0 one_cell_grid)) = None
   \<and> possible_draw (concat (filled0 one_cell_grid)) 4
   \<and> domainGen film1 [10, 20, 30] [1, 2] one_cell_grid 2 (\<lambda>i. 4)
       = Inr ([LandauDomain_init film1 1 9 11, LandauDomain_init film1 1 9 11],
              [[20, 2, 9, 11], [20, 2, 9, 11]])
   \<and> ec (LandauDomain_init film1 1 9 11) = (20 - 2) / 2
   \<and> ebias (LandauDomain_init film1 1 9 11) = (20 + 2) / 2"
proof -
  from domainGen_domains[OF one_cell_grid_inputs, of film1]
  obtain domainList domains where
    r: "domainGen film1 [10, 20, 30] [1, 2] one_cell_grid 2 (\<lambda>i. 4) = Inr (domainList, domains)"
    and "length domainList = 2"
    and e: "\<forall>i<2. ec (domainList ! i) = ([10, 20, 30] ! (4 mod 3) - [1, 2] ! (4 div 3)) / 2
            \<and> ebias (domainList ! i) = ([10, 20, 30] ! (4 mod 3) + [1, 2] ! (4 div 3)) / 2
            \<and> dom_area (domainList ! i) = film_area film1 / real 2
            \<and> dom_pr (domainList ! i) = film_pr film1"
    by blast
  have c: "domainGen film1 [10, 20, 30] [1, 2] one_cell_grid 2 (\<lambda>i. 4)
       = Inr ([LandauDomain_init film1 1 9 11, LandauDomain_init film1 1 9 11],
              [[20, 2, 9, 11], [20, 2, 9, 11]])"
    by code_simp
  from r c have dl: "domainList = [LandauDomain_init film1 1 9 11, LandauDomain_init film1 1 9 11]"
    by simp
  from e have "ec (domainList ! 0) = ([10, 20, 30] ! (4 mod 3) - [1, 2] ! (4 div 3)) / 2"
    "ebias (domainList ! 0) = ([10, 20, 30] ! (4 mod 3) + [1, 2] ! (4 div 3)) / 2" by simp_all
  then have "ec (LandauDomain_init film1 1 9 11) = (20 - 2) / 2"
    "ebias (LandauDomain_init film1 1 9 11) = (20 + 2) / 2"
    unfolding dl by simp_all
  with c one_cell_grid_inputs(1,4) one_cell_grid_draw show ?thesis by blast
qed


section \<open>Preisach simulation: the switching rule\<close>

lemma inner_loop_run:
  "i + length ds \<le> length st \<Longrightarrow>
   \<exists>st'. inner_loop sd e ds i st pj =
        Inr (st', pj + (\<Sum>k<length ds. dom_pr (ds ! k) * dom_area (ds ! k)
                                      * switch sd e (ds ! k) (st ! (i + k))))
      \<and> length st' = length st
      \<and> (\<forall>k<length st. st' ! k = (if i \<le> k \<and> k < i + length ds
                                   then switch sd e (ds ! (k - i)) (st ! k) else st ! k))"
proof (induction ds arbitrary: i st pj)
  case Nil
  then show ?case by simp
next
  case (Cons d rest)
  let ?s = "switch sd e d (st ! i)"
  let ?st1 = "st[i := ?s]"
  let ?pj1 = "pj + dom_pr d * dom_area d * ?s"
  from Cons.prems have il: "i < length st" and le: "Suc i + length rest \<le> length ?st1" by simp_all
  from Cons.IH[OF le, of ?pj1] obtain st' where
    r: "inner_loop sd e rest (Suc i) ?st1 ?pj1 =
        Inr (st', ?pj1 + (\<Sum>k<length rest. dom_pr (rest ! k) * dom_area (rest ! k)
                                      * switch sd e (rest ! k) (?st1 ! (Suc i + k))))"
    and l: "length st' = length ?st1"
    and n: "\<forall>k<length ?st1. st' ! k = (if Suc i \<le> k \<and> k < Suc i + length rest
                                   then switch sd e (rest ! (k - Suc i)) (?st1 ! k) else ?st1 ! k)"
    by blast
  have s1: "(\<Sum>k<length rest. dom_pr (rest ! k) * dom_area (rest ! k)
                                      * switch sd e (rest ! k) (?st1 ! (Suc i + k)))
      = (\<Sum>k<length rest. dom_pr (rest ! k) * dom_area (rest ! k)
                                      * switch sd e (rest ! k) (st ! (Suc i + k)))"
    by (rule sum.cong) simp_all
  have s2: "(\<Sum>k<length (d # rest). dom_pr ((d # rest) ! k) * dom_area ((d # rest) ! k)
                                      * switch sd e ((d # rest) ! k) (st ! (i + k)))
      = dom_pr d * dom_area d * ?s
        + (\<Sum>k<length rest. dom_pr (rest ! k) * dom_area (rest ! k)
                                      * switch sd e (rest ! k) (st ! (Suc i + k)))"
    unfolding length_Cons sum.lessThan_Suc_shift by simp
  have run: "inner_loop sd e (d # rest) i st pj =
        Inr (st', pj + (\<Sum>k<length (d # rest). dom_pr ((d # rest) ! k) * dom_area ((d # rest) ! k)
                                      * switch sd e ((d # rest) ! k) (st ! (i + k))))"
    using il r unfolding s1 s2 by (simp add: Let_def add.assoc)
  have nth: "\<forall>k<length st. st' ! k = (if i \<le> k \<and> k < i + length (d # rest)
                                   then switch sd e ((d # rest) ! (k - i)) (st ! k) else st ! k)"
  proof (intro allI impI)
    fix k assume k: "k < length st"
    then have kk: "k < length ?st1" by simp
    show "st' ! k = (if i \<le> k \<and> k < i + length (d # rest)
                                   then switch sd e ((d # rest) ! (k - i)) (st ! k) else st ! k)"
    proof (cases "k = i")
      case True
      with n kk il show ?thesis by simp
    next
      case False
      then have "?st1 ! k = st ! k" by simp
      moreover have "Suc i \<le> k \<Longrightarrow> (d # rest) ! (k - i) = rest ! (k - Suc i)"
        by (simp add: Suc_diff_le)
      ultimately show ?thesis using n kk False by auto
    qed
  qed
  from run l nth show ?case by auto
qed


lemma sweep_loop_run:
  "length ds \<le> length st \<Longrightarrow>
   \<exists>ps final. sweep_loop steps ds st = Inr (ps, final)
      \<and> length ps = length steps \<and> length final = length st
      \<and> (\<forall>i<length st. final ! i =
            (if i < length ds then fold (\<lambda>(e, sd). switch sd e (ds ! i)) steps (st ! i)
             else st ! i))
      \<and> (\<forall>j<length steps. ps ! j =
            (\<Sum>i<length ds. dom_pr (ds ! i) * dom_area (ds ! i)
                * fold (\<lambda>(e, sd). switch sd e (ds ! i)) (take (Suc j) steps) (st ! i)))"
proof (induction steps arbitrary: st)
  case Nil
  then show ?case by simp
next
  case (Cons a steps)
  obtain e sd where a: "a = (e, sd)" by (cases a)
  from Cons.prems have le0: "0 + length ds \<le> length st" by simp
  from inner_loop_run[OF le0, of sd e 0] obtain st1 where
    r1: "inner_loop sd e ds 0 st 0 =
        Inr (st1, (\<Sum>k<length ds. dom_pr (ds ! k) * dom_area (ds ! k)
                                      * switch sd e (ds ! k) (st ! k)))"
    and l1: "length st1 = length st"
    and n1: "\<forall>k<length st. st1 ! k = (if k < length ds
                                   then switch sd e (ds ! k) (st ! k) else st ! k)"
    by auto
  from Cons.prems l1 have le1: "length ds \<le> length st1" by simp
  from Cons.IH[OF le1] obtain ps final where
    r2: "sweep_loop steps ds st1 = Inr (ps, final)"
    and l2: "length ps = length steps" "length final = length st1"
    and f2: "\<forall>i<length st1. final ! i =
            (if i < length ds then fold (\<lambda>(e, sd). switch sd e (ds ! i)) steps (st1 ! i)
             else st1 ! i)"
    and p2: "\<forall>j<length steps. ps ! j =
            (\<Sum>i<length ds. dom_pr (ds ! i) * dom_area (ds ! i)
                * fold (\<lambda>(e, sd). switch sd e (ds ! i)) (take (Suc j) steps) (st1 ! i))"
    by blast
  let ?pj = "(\<Sum>k<length ds. dom_pr (ds ! k) * dom_area (ds ! k)
                                      * switch sd e (ds ! k) (st ! k))"
  have run: "sweep_loop (a # steps) ds st = Inr (?pj # ps, final)"
    unfolding a using r1 r2 by simp
  have st1i: "\<And>i. i < length ds \<Longrightarrow> st1 ! i = switch sd e (ds ! i) (st ! i)"
    using n1 Cons.prems by simp
  have fin: "\<forall>i<length st. final ! i =
            (if i < length ds then fold (\<lambda>(e, sd). switch sd e (ds ! i)) (a # steps) (st ! i)
             else st ! i)"
    unfolding a using f2 l1 n1 by simp
  have pp: "\<forall>j<length (a # steps). (?pj # ps) ! j =
            (\<Sum>i<length ds. dom_pr (ds ! i) * dom_area (ds ! i)
                * fold (\<lambda>(e, sd). switch sd e (ds ! i)) (take (Suc j) (a # steps)) (st ! i))"
  proof (intro allI impI)
    fix j assume j: "j < length (a # steps)"
    show "(?pj # ps) ! j =
            (\<Sum>i<length ds. dom_pr (ds ! i) * dom_area (ds ! i)
                * fold (\<lambda>(e, sd). switch sd e (ds ! i)) (take (Suc j) (a # steps)) (st ! i))"
    proof (cases j)
      case 0
      then show ?thesis unfolding a by simp
    next
      case (Suc j')
      with j have "j' < length steps" by simp
      with p2 have "ps ! j' =
            (\<Sum>i<length ds. dom_pr (ds ! i) * dom_area (ds ! i)
                * fold (\<lambda>(e, sd). switch sd e (ds ! i)) (take (Suc j') steps) (st1 ! i))"
        by blast
      also have "\<dots> = (\<Sum>i<length ds. dom_pr (ds ! i) * dom_area (ds ! i)
                * fold (\<lambda>(e, sd). switch sd e (ds ! i)) (take (Suc j) (a # steps)) (st ! i))"
        unfolding Suc a by (rule sum.cong) (simp_all add: st1i)
      finally show ?thesis unfolding Suc by simp
    qed
  qed
  from run l1 l2 fin pp show ?case by auto
qed


lemma fold_switch_spec_state:
  "j < length esweep \<Longrightarrow> j < length sweepDir \<Longrightarrow>
   fold (\<lambda>(e, sd). switch sd e d) (take (Suc j) (zip esweep sweepDir)) s0
     = spec_state esweep sweepDir d s0 j"
proof (induction j)
  case 0
  then have "take (Suc 0) (zip esweep sweepDir) = [(esweep ! 0, sweepDir ! 0)]"
    by (cases esweep; cases sweepDir) simp_all
  then show ?case by (simp add: switch_def)
next
  case (Suc j)
  then have lt: "Suc j < length (zip esweep sweepDir)" by simp
  have "take (Suc (Suc j)) (zip esweep sweepDir)
      = take (Suc j) (zip esweep sweepDir) @ [(esweep ! Suc j, sweepDir ! Suc j)]"
    using take_Suc_conv_app_nth[OF lt] Suc.prems by simp
  then show ?case using Suc by (simp add: switch_def)
qed

lemma np_gradient_length: "np_gradient esweep = Inr sweepDir \<Longrightarrow> length sweepDir = length esweep \<and> 2 \<le> length esweep"
  by (auto simp: np_gradient_def Let_def split: if_splits)

lemma calcEfePreisach_refines:
  assumes g: "np_gradient esweep = Inr sweepDir" and a: "film_area self \<noteq> 0"
    and i: "init_check initState (length domains) = Inr state0"
    and l: "length domains \<le> length state0"
  shows "\<exists>p final. calcEfePreisach self esweep domains initState = Inr (p, final)
      \<and> length p = length esweep \<and> length final = length state0
      \<and> (\<forall>i<length domains. final ! i
            = spec_state esweep sweepDir (domains ! i) (state0 ! i) (length esweep - 1))
      \<and> (\<forall>j<length esweep. p ! j
            = (\<Sum>i<length domains. dom_pr (domains ! i) * dom_area (domains ! i)
                 * spec_state esweep sweepDir (domains ! i) (state0 ! i) j) / film_area self)"
proof -
  let ?steps = "zip esweep sweepDir"
  from np_gradient_length[OF g] have len: "length sweepDir = length esweep" "2 \<le> length esweep"
    by simp_all
  then have ls: "length ?steps = length esweep" by simp
  from sweep_loop_run[OF l, of ?steps] obtain ps final where
    r: "sweep_loop ?steps domains state0 = Inr (ps, final)"
    and lp: "length ps = length ?steps" "length final = length state0"
    and f: "\<forall>i<length state0. final ! i =
            (if i < length domains then fold (\<lambda>(e, sd). switch sd e (domains ! i)) ?steps (state0 ! i)
             else state0 ! i)"
    and p: "\<forall>j<length ?steps. ps ! j =
            (\<Sum>i<length domains. dom_pr (domains ! i) * dom_area (domains ! i)
                * fold (\<lambda>(e, sd). switch sd e (domains ! i)) (take (Suc j) ?steps) (state0 ! i))"
    by blast
  have run: "calcEfePreisach self esweep domains initState
      = Inr (map (\<lambda>x. x / film_area self) ps, final)"
    using g a i r by (simp add: calcEfePreisach_def)
  have full: "take (Suc (length esweep - 1)) ?steps = ?steps" using ls len by simp
  have fin: "\<forall>i<length domains. final ! i
            = spec_state esweep sweepDir (domains ! i) (state0 ! i) (length esweep - 1)"
  proof (intro allI impI)
    fix k assume k: "k < length domains"
    with l f have "final ! k = fold (\<lambda>(e, sd). switch sd e (domains ! k)) ?steps (state0 ! k)"
      by simp
    also have "\<dots> = fold (\<lambda>(e, sd). switch sd e (domains ! k))
        (take (Suc (length esweep - 1)) ?steps) (state0 ! k)"
      by (simp only: full)
    also have "\<dots> = spec_state esweep sweepDir (domains ! k) (state0 ! k) (length esweep - 1)"
      by (rule fold_switch_spec_state) (use len in simp_all)
    finally show "final ! k
        = spec_state esweep sweepDir (domains ! k) (state0 ! k) (length esweep - 1)" .
  qed
  have pol: "\<forall>j<length esweep. map (\<lambda>x. x / film_area self) ps ! j
            = (\<Sum>i<length domains. dom_pr (domains ! i) * dom_area (domains ! i)
                 * spec_state esweep sweepDir (domains ! i) (state0 ! i) j) / film_area self"
  proof (intro allI impI)
    fix j assume j: "j < length esweep"
    then have "ps ! j = (\<Sum>i<length domains. dom_pr (domains ! i) * dom_area (domains ! i)
                * fold (\<lambda>(e, sd). switch sd e (domains ! i)) (take (Suc j) ?steps) (state0 ! i))"
      using p ls by simp
    also have "\<dots> = (\<Sum>i<length domains. dom_pr (domains ! i) * dom_area (domains ! i)
                 * spec_state esweep sweepDir (domains ! i) (state0 ! i) j)"
      using j len by (simp add: fold_switch_spec_state)
    finally show "map (\<lambda>x. x / film_area self) ps ! j
            = (\<Sum>i<length domains. dom_pr (domains ! i) * dom_area (domains ! i)
                 * spec_state esweep sweepDir (domains ! i) (state0 ! i) j) / film_area self"
      using j lp ls by simp
  qed
  from run lp ls fin pol show ?thesis by auto
qed

lemma spec_state_values:
  "s0 = 1 \<or> s0 = - 1 \<Longrightarrow> spec_state esweep sweepDir d s0 j = 1 \<or> spec_state esweep sweepDir d s0 j = - 1"
  by (induction j) auto

lemma spec_state_inside:
  "\<forall>k<n. - ec d + ebias d < esweep ! k \<and> esweep ! k < ec d + ebias d \<Longrightarrow> j < n
   \<Longrightarrow> spec_state esweep sweepDir d s0 j = s0"
  by (induction j) auto

lemma spec_state_step:
  "spec_state esweep sweepDir d s0 j =
     (if sweepDir ! j > 0 \<and> esweep ! j \<ge> ec d + ebias d then 1
      else if sweepDir ! j < 0 \<and> esweep ! j \<le> - ec d + ebias d then - 1
      else if j = 0 then s0 else spec_state esweep sweepDir d s0 (j - 1))"
  by (cases j) simp_all

lemma spec_state_since:
  "(spec_state esweep sweepDir d (- 1) j = 1) =
     (\<exists>i\<le>j. sweepDir ! i > 0 \<and> esweep ! i \<ge> ec d + ebias d
        \<and> (\<forall>k. i < k \<and> k \<le> j \<longrightarrow> \<not> (sweepDir ! k < 0 \<and> esweep ! k \<le> - ec d + ebias d)))"
proof (induction j)
  case 0
  show ?case by simp
next
  case (Suc j)
  let ?U = "\<lambda>i. sweepDir ! i > 0 \<and> esweep ! i \<ge> ec d + ebias d"
  let ?D = "\<lambda>k. sweepDir ! k < 0 \<and> esweep ! k \<le> - ec d + ebias d"
  show ?case
  proof (cases "?U (Suc j)")
    case True
    then show ?thesis by auto
  next
    case nu: False
    show ?thesis
    proof (cases "?D (Suc j)")
      case True
      have n: "\<not> (\<exists>i\<le>Suc j. ?U i \<and> (\<forall>k. i < k \<and> k \<le> Suc j \<longrightarrow> \<not> ?D k))"
      proof
        assume "\<exists>i\<le>Suc j. ?U i \<and> (\<forall>k. i < k \<and> k \<le> Suc j \<longrightarrow> \<not> ?D k)"
        then obtain i where i: "i \<le> Suc j" "?U i" "\<forall>k. i < k \<and> k \<le> Suc j \<longrightarrow> \<not> ?D k" by blast
        from i(2) nu have "i \<noteq> Suc j" by blast
        with i(1) have "i < Suc j" by simp
        with i(3) True show False by blast
      qed
      have e: "spec_state esweep sweepDir d (- 1) (Suc j) = - 1"
        using True nu by (simp only: spec_state.simps if_False if_True simp_thms)
      from n show ?thesis unfolding e by simp
    next
      case nd: False
      have e1: "(\<exists>i\<le>Suc j. ?U i \<and> (\<forall>k. i < k \<and> k \<le> Suc j \<longrightarrow> \<not> ?D k))
          = (\<exists>i\<le>j. ?U i \<and> (\<forall>k. i < k \<and> k \<le> j \<longrightarrow> \<not> ?D k))" (is "?L = ?R")
      proof
        assume ?L
        then obtain i where i: "i \<le> Suc j" "?U i" "\<forall>k. i < k \<and> k \<le> Suc j \<longrightarrow> \<not> ?D k" by blast
        from i(2) nu have "i \<noteq> Suc j" by blast
        with i(1) have "i \<le> j" by simp
        moreover from i(3) have "\<forall>k. i < k \<and> k \<le> j \<longrightarrow> \<not> ?D k" by simp
        ultimately show ?R using i(2) by blast
      next
        assume ?R
        then obtain i where i: "i \<le> j" "?U i" "\<forall>k. i < k \<and> k \<le> j \<longrightarrow> \<not> ?D k" by blast
        have "\<forall>k. i < k \<and> k \<le> Suc j \<longrightarrow> \<not> ?D k"
        proof (intro allI impI)
          fix k assume "i < k \<and> k \<le> Suc j"
          then have "k \<le> j \<or> k = Suc j" by auto
          then show "\<not> ?D k" using i(3) nd \<open>i < k \<and> k \<le> Suc j\<close> by blast
        qed
        with i(1,2) show ?L by (meson le_Suc_eq)
      qed
      have e2: "spec_state esweep sweepDir d (- 1) (Suc j) = spec_state esweep sweepDir d (- 1) j"
        using nu nd by (simp only: spec_state.simps if_False simp_thms)
      from Suc.IH e1 show ?thesis unfolding e2 by (simp only: conj_assoc)
    qed
  qed
qed

text \<open>
  Claim C1. For every sweep and every list of domains, \<open>calcEfePreisach\<close> computes the
  states that the rule of the specification gives, the local sweep direction being the
  sign of \<open>np_gradient\<close> at the sample: after each step the state of domain \<open>i\<close> is
  \<open>spec_state\<close>, the final state vector holds the states after the last step, and the
  output at step \<open>j\<close> is the sum of \<open>pr * area * state\<close> over the domains divided by
  the film area. Consequently, for a single domain of the area of the film with
  \<open>ec = 1\<close>, \<open>ebias = 0\<close>, \<open>pr = 1\<close>, started in state \<open>-1\<close>, the output is \<open>+1\<close> or \<open>-1\<close>
  at every step; it becomes \<open>+1\<close> exactly at a sample whose direction is positive with
  the field at or above \<open>+1\<close>, becomes \<open>-1\<close> exactly at a sample whose direction is
  negative with the field at or below \<open>-1\<close>, and otherwise repeats the output of the
  step before. So the output at step \<open>j\<close> is \<open>+1\<close> if and only if some sample \<open>i \<le> j\<close>
  has a positive direction and a field at or above \<open>+1\<close>, and no sample after \<open>i\<close> up to
  \<open>j\<close> has a negative direction and a field at or below \<open>-1\<close>. On a sweep that stays
  strictly between the thresholds the output never leaves \<open>-1\<close>.
\<close>

theorem calcEfePreisach_switching:
  assumes "np_gradient esweep = Inr sweepDir" and "film_area self \<noteq> 0"
  shows
   "(\<forall>state0. init_check initState (length domains) = Inr state0 \<and> length domains \<le> length state0
       \<longrightarrow> (\<exists>p final. calcEfePreisach self esweep domains initState = Inr (p, final)
             \<and> length p = length esweep
             \<and> (\<forall>i<length domains. final ! i
                   = spec_state esweep sweepDir (domains ! i) (state0 ! i) (length esweep - 1))
             \<and> (\<forall>j<length esweep. p ! j
                   = (\<Sum>i<length domains. dom_pr (domains ! i) * dom_area (domains ! i)
                        * spec_state esweep sweepDir (domains ! i) (state0 ! i) j)
                     / film_area self)))
    \<and> (ec d = 1 \<and> ebias d = 0 \<and> dom_pr d = 1 \<and> dom_area d = film_area self
       \<longrightarrow> (\<exists>p final. calcEfePreisach self esweep [d] PyNone = Inr (p, final)
             \<and> length p = length esweep
             \<and> (\<forall>j<length esweep. p ! j = 1 \<or> p ! j = - 1)
             \<and> (\<forall>j<length esweep. p ! j
                   = (if sweepDir ! j > 0 \<and> esweep ! j \<ge> 1 then 1
                      else if sweepDir ! j < 0 \<and> esweep ! j \<le> - 1 then - 1
                      else if j = 0 then - 1 else p ! (j - 1)))
             \<and> (\<forall>j<length esweep. (p ! j = 1)
                   = (\<exists>i\<le>j. sweepDir ! i > 0 \<and> esweep ! i \<ge> 1
                        \<and> (\<forall>k. i < k \<and> k \<le> j
                               \<longrightarrow> \<not> (sweepDir ! k < 0 \<and> esweep ! k \<le> - 1))))
             \<and> ((\<forall>j<length esweep. - 1 < esweep ! j \<and> esweep ! j < 1)
                   \<longrightarrow> (\<forall>j<length esweep. p ! j = - 1))))"
proof (intro conjI allI impI)
  fix state0
  assume "init_check initState (length domains) = Inr state0 \<and> length domains \<le> length state0"
  then have "init_check initState (length domains) = Inr state0" "length domains \<le> length state0"
    by simp_all
  from calcEfePreisach_refines[OF assms this]
  show "\<exists>p final. calcEfePreisach self esweep domains initState = Inr (p, final)
             \<and> length p = length esweep
             \<and> (\<forall>i<length domains. final ! i
                   = spec_state esweep sweepDir (domains ! i) (state0 ! i) (length esweep - 1))
             \<and> (\<forall>j<length esweep. p ! j
                   = (\<Sum>i<length domains. dom_pr (domains ! i) * dom_area (domains ! i)
                        * spec_state esweep sweepDir (domains ! i) (state0 ! i) j)
                     / film_area self)"
    by blast
next
  assume h: "ec d = 1 \<and> ebias d = 0 \<and> dom_pr d = 1 \<and> dom_area d = film_area self"
  have i: "init_check PyNone (length [d]) = Inr [- 1]" by (simp add: init_check_def)
  have l: "length [d] \<le> length [- 1 :: real]" by simp
  from calcEfePreisach_refines[OF assms i l] obtain p final where
    r: "calcEfePreisach self esweep [d] PyNone = Inr (p, final)"
    and lp: "length p = length esweep"
    and pj: "\<forall>j<length esweep. p ! j
            = (\<Sum>i<length [d]. dom_pr ([d] ! i) * dom_area ([d] ! i)
                 * spec_state esweep sweepDir ([d] ! i) ([- 1] ! i) j) / film_area self"
    by blast
  have ps: "\<And>j. j < length esweep \<Longrightarrow> p ! j = spec_state esweep sweepDir d (- 1) j"
    using pj h assms(2) by simp
  have vals: "\<forall>j<length esweep. p ! j = 1 \<or> p ! j = - 1"
    using ps spec_state_values[of "- 1" esweep sweepDir d] by simp
  have rec: "\<forall>j<length esweep. p ! j
                   = (if sweepDir ! j > 0 \<and> esweep ! j \<ge> 1 then 1
                      else if sweepDir ! j < 0 \<and> esweep ! j \<le> - 1 then - 1
                      else if j = 0 then - 1 else p ! (j - 1))"
  proof (intro allI impI)
    fix j assume j: "j < length esweep"
    then have j1: "j - 1 < length esweep" by simp
    show "p ! j = (if sweepDir ! j > 0 \<and> esweep ! j \<ge> 1 then 1
                      else if sweepDir ! j < 0 \<and> esweep ! j \<le> - 1 then - 1
                      else if j = 0 then - 1 else p ! (j - 1))"
      unfolding ps[OF j] ps[OF j1] using spec_state_step[of esweep sweepDir d "- 1" j] h by simp
  qed
  have since: "\<forall>j<length esweep. (p ! j = 1)
                   = (\<exists>i\<le>j. sweepDir ! i > 0 \<and> esweep ! i \<ge> 1
                        \<and> (\<forall>k. i < k \<and> k \<le> j
                               \<longrightarrow> \<not> (sweepDir ! k < 0 \<and> esweep ! k \<le> - 1)))"
  proof (intro allI impI)
    fix j assume j: "j < length esweep"
    from h have t: "ec d + ebias d = 1" "- ec d + ebias d = - 1" by simp_all
    show "(p ! j = 1)
            = (\<exists>i\<le>j. sweepDir ! i > 0 \<and> esweep ! i \<ge> 1
                 \<and> (\<forall>k. i < k \<and> k \<le> j
                        \<longrightarrow> \<not> (sweepDir ! k < 0 \<and> esweep ! k \<le> - 1)))"
      unfolding ps[OF j] using spec_state_since[of esweep sweepDir d j] unfolding t .
  qed
  have minor: "(\<forall>j<length esweep. - 1 < esweep ! j \<and> esweep ! j < 1)
                   \<longrightarrow> (\<forall>j<length esweep. p ! j = - 1)"
  proof (intro allI impI)
    fix j assume a: "\<forall>j<length esweep. - 1 < esweep ! j \<and> esweep ! j < 1" and j: "j < length esweep"
    from a h have "\<forall>k<length esweep. - ec d + ebias d < esweep ! k \<and> esweep ! k < ec d + ebias d"
      by simp
    from spec_state_inside[OF this j] ps[OF j] show "p ! j = - 1" by simp
  qed
  from r lp vals rec since minor
  show "\<exists>p final. calcEfePreisach self esweep [d] PyNone = Inr (p, final)
             \<and> length p = length esweep
             \<and> (\<forall>j<length esweep. p ! j = 1 \<or> p ! j = - 1)
             \<and> (\<forall>j<length esweep. p ! j
                   = (if sweepDir ! j > 0 \<and> esweep ! j \<ge> 1 then 1
                      else if sweepDir ! j < 0 \<and> esweep ! j \<le> - 1 then - 1
                      else if j = 0 then - 1 else p ! (j - 1)))
             \<and> (\<forall>j<length esweep. (p ! j = 1)
                   = (\<exists>i\<le>j. sweepDir ! i > 0 \<and> esweep ! i \<ge> 1
                        \<and> (\<forall>k. i < k \<and> k \<le> j
                               \<longrightarrow> \<not> (sweepDir ! k < 0 \<and> esweep ! k \<le> - 1))))
             \<and> ((\<forall>j<length esweep. - 1 < esweep ! j \<and> esweep ! j < 1)
                   \<longrightarrow> (\<forall>j<length esweep. p ! j = - 1))"
    by blast
qed

lemma np_gradient_tri_sweep:
  "np_gradient tri_sweep = Inr [1, 1, 1, 1, 0, - 1, - 1, - 1, - 1]"
  by code_simp

lemma calcEfePreisach_tri_sweep:
  "calcEfePreisach film1 tri_sweep [dom1] PyNone
     = Inr ([- 1, - 1, - 1, 1, 1, 1, 1, - 1, - 1], [- 1])"
  by code_simp

lemma calcEfePreisach_minor_sweep:
  "calcEfePreisach film1 minor_sweep [dom1] PyNone = Inr ([- 1, - 1, - 1, - 1, - 1], [- 1])"
  by code_simp

lemma dom1_fields:
  "ec dom1 = 1 \<and> ebias dom1 = 0 \<and> dom_pr dom1 = 1 \<and> dom_area dom1 = film_area film1"
  by (simp add: dom1_def film1_def LandauDomain_init_def)

theorem calcEfePreisach_switching_witness:
  "np_gradient tri_sweep = Inr [1, 1, 1, 1, 0, - 1, - 1, - 1, - 1]
   \<and> film_area film1 \<noteq> 0
   \<and> ec dom1 = 1 \<and> ebias dom1 = 0 \<and> dom_pr dom1 = 1 \<and> dom_area dom1 = film_area film1
   \<and> calcEfePreisach film1 tri_sweep [dom1] PyNone
       = Inr ([- 1, - 1, - 1, 1, 1, 1, 1, - 1, - 1], [- 1])
   \<and> [- 1, - 1, - 1, 1, 1, 1, 1, - 1, - 1 :: real] ! 3
       = (if [1, 1, 1, 1, 0, - 1, - 1, - 1, - 1 :: real] ! 3 > 0 \<and> tri_sweep ! 3 \<ge> 1 then 1
          else if [1, 1, 1, 1, 0, - 1, - 1, - 1, - 1 :: real] ! 3 < 0 \<and> tri_sweep ! 3 \<le> - 1 then - 1
          else [- 1, - 1, - 1, 1, 1, 1, 1, - 1, - 1] ! 2)"
proof -
  have a: "film_area film1 \<noteq> 0" by (simp add: film1_def)
  have l: "(3::nat) < length tri_sweep" by (simp add: tri_sweep_def)
  have step: "[- 1, - 1, - 1, 1, 1, 1, 1, - 1, - 1 :: real] ! 3
       = (if [1, 1, 1, 1, 0, - 1, - 1, - 1, - 1 :: real] ! 3 > 0 \<and> tri_sweep ! 3 \<ge> 1 then 1
          else if [1, 1, 1, 1, 0, - 1, - 1, - 1, - 1 :: real] ! 3 < 0 \<and> tri_sweep ! 3 \<le> - 1 then - 1
          else [- 1, - 1, - 1, 1, 1, 1, 1, - 1, - 1] ! 2)"
    if r: "calcEfePreisach film1 tri_sweep [dom1] PyNone = Inr (p, final)"
    and rec: "\<forall>j<length tri_sweep. p ! j
                   = (if [1, 1, 1, 1, 0, - 1, - 1, - 1, - 1 :: real] ! j > 0 \<and> tri_sweep ! j \<ge> 1 then 1
                      else if [1, 1, 1, 1, 0, - 1, - 1, - 1, - 1 :: real] ! j < 0 \<and> tri_sweep ! j \<le> - 1 then - 1
                      else if j = 0 then - 1 else p ! (j - 1))"
    for p final
  proof -
    from r have "Inr (p, final) = calcEfePreisach film1 tri_sweep [dom1] PyNone" by simp
    also note calcEfePreisach_tri_sweep
    finally have p: "p = [- 1, - 1, - 1, 1, 1, 1, 1, - 1, - 1]" by blast
    from rec l have "p ! 3
       = (if [1, 1, 1, 1, 0, - 1, - 1, - 1, - 1 :: real] ! 3 > 0 \<and> tri_sweep ! 3 \<ge> 1 then 1
          else if [1, 1, 1, 1, 0, - 1, - 1, - 1, - 1 :: real] ! 3 < 0 \<and> tri_sweep ! 3 \<le> - 1 then - 1
          else if (3::nat) = 0 then - 1 else p ! (3 - 1))" by blast
    then show ?thesis unfolding p by (simp add: tri_sweep_def)
  qed
  from calcEfePreisach_switching[OF np_gradient_tri_sweep a, of PyNone "[dom1]" dom1,
      THEN conjunct2, THEN mp, OF dom1_fields]
  have "[- 1, - 1, - 1, 1, 1, 1, 1, - 1, - 1 :: real] ! 3
       = (if [1, 1, 1, 1, 0, - 1, - 1, - 1, - 1 :: real] ! 3 > 0 \<and> tri_sweep ! 3 \<ge> 1 then 1
          else if [1, 1, 1, 1, 0, - 1, - 1, - 1, - 1 :: real] ! 3 < 0 \<and> tri_sweep ! 3 \<le> - 1 then - 1
          else [- 1, - 1, - 1, 1, 1, 1, 1, - 1, - 1] ! 2)"
    by (elim exE conjE) (rule step)
  with np_gradient_tri_sweep a dom1_fields calcEfePreisach_tri_sweep show ?thesis by blast
qed

text \<open>The sweep \<open>-2, 0, 2, 0, -2\<close> goes from \<open>-2\<close> to \<open>+2\<close> and back, and the field
  crosses \<open>+1\<close> between its samples 1 and 2. The direction at the turning sample 2 is
  the central difference of its two neighbours, which is zero, so the only sample with a
  field at or above \<open>+1\<close> switches nothing and the output stays \<open>-1\<close>; the same happens
  on \<open>-2, -1, 0, 2, 0, -1, -2\<close>.\<close>

theorem calcEfePreisach_turning_sample_no_switch:
  "np_gradient [- 2, 0, 2, 0, - 2] = Inr [2, 2, 0, - 2, - 2]
   \<and> calcEfePreisach film1 [- 2, 0, 2, 0, - 2] [dom1] PyNone
       = Inr ([- 1, - 1, - 1, - 1, - 1], [- 1])
   \<and> np_gradient [- 2, - 1, 0, 2, 0, - 1, - 2] = Inr [1, 1, 3 / 2, 0, - (3 / 2), - 1, - 1]
   \<and> calcEfePreisach film1 [- 2, - 1, 0, 2, 0, - 1, - 2] [dom1] PyNone
       = Inr ([- 1, - 1, - 1, - 1, - 1, - 1, - 1], [- 1])"
  by code_simp

section \<open>Capacitance extraction\<close>

lemma sse_expand:
  "sum_list (map (\<lambda>(x, y). (a' * x + b' - y)\<^sup>2) ps)
   = sum_list (map (\<lambda>(x, y). (a * x + b - y)\<^sup>2) ps)
     + sum_list (map (\<lambda>(x, y). ((a' - a) * x + (b' - b))\<^sup>2) ps)
     + 2 * ((a' - a) * sum_list (map (\<lambda>(x, y). x * (a * x + b - y)) ps)
            + (b' - b) * sum_list (map (\<lambda>(x, y). a * x + b - y) ps))"
  for a b a' b' :: real
  by (induction ps) (auto simp: algebra_simps power2_eq_square)

lemma sum_residual:
  "length xs = length ys \<Longrightarrow>
   sum_list (map (\<lambda>(x, y). a * x + b - y) (zip xs ys))
     = a * sum_list xs + real (length xs) * b - sum_list ys"
  for a b :: real
  by (induction xs ys rule: list_induct2) (simp_all add: algebra_simps)

lemma sum_x_residual:
  "length xs = length ys \<Longrightarrow>
   sum_list (map (\<lambda>(x, y). x * (a * x + b - y)) (zip xs ys))
     = a * sum_list (map (\<lambda>x. x * x) xs) + b * sum_list xs
       - sum_list (map (\<lambda>(x, y). x * y) (zip xs ys))"
  for a b :: real
  by (induction xs ys rule: list_induct2) (simp_all add: algebra_simps)

lemma sum_sq_dev:
  "sum_list (map (\<lambda>x. (x - m)\<^sup>2) xs)
     = sum_list (map (\<lambda>x. x * x) xs) - 2 * m * sum_list xs + real (length xs) * m\<^sup>2"
  for m :: real
  by (induction xs) (simp_all add: algebra_simps power2_eq_square)

lemma zero_variance_all_equal:
  fixes xs :: "real list"
  assumes "xs \<noteq> []"
    and "real (length xs) * sum_list (map (\<lambda>x. x * x) xs) - sum_list xs * sum_list xs = 0"
  shows "list_all (\<lambda>x. x = hd xs) xs"
proof -
  define n where "n = real (length xs)"
  define m where "m = sum_list xs / n"
  have n0: "n \<noteq> 0" using assms(1) by (simp add: n_def)
  have "sum_list (map (\<lambda>x. (x - m)\<^sup>2) xs)
      = sum_list (map (\<lambda>x. x * x) xs) - 2 * m * sum_list xs + n * m\<^sup>2"
    unfolding n_def by (rule sum_sq_dev)
  also have "\<dots> = (n * sum_list (map (\<lambda>x. x * x) xs) - sum_list xs * sum_list xs) / n"
    using n0 by (simp add: m_def field_simps power2_eq_square)
  also have "\<dots> = 0" using assms(2) by (simp add: n_def)
  finally have z: "sum_list (map (\<lambda>x. (x - m)\<^sup>2) xs) = 0" .
  have "\<forall>v \<in> set (map (\<lambda>x. (x - m)\<^sup>2) xs). v = 0"
    using z by (subst (asm) sum_list_nonneg_eq_0_iff) auto
  then have all: "\<forall>x \<in> set xs. x = m" by auto
  from assms(1) have "hd xs \<in> set xs" by simp
  with all have "hd xs = m" by blast
  with all show ?thesis by (simp add: list_all_iff)
qed

lemma all_equal_sums:
  fixes xs ys :: "real list"
  assumes "list_all (\<lambda>x. x = c) xs" and "length xs = length ys"
  shows "sum_list xs = real (length xs) * c"
    and "sum_list (map (\<lambda>x. x * x) xs) = real (length xs) * (c * c)"
    and "sum_list (map (\<lambda>(x, y). x * y) (zip xs ys)) = c * sum_list ys"
proof -
  show "sum_list xs = real (length xs) * c"
    using assms(1) by (induction xs) (simp_all add: algebra_simps)
  show "sum_list (map (\<lambda>x. x * x) xs) = real (length xs) * (c * c)"
    using assms(1) by (induction xs) (simp_all add: algebra_simps)
  show "sum_list (map (\<lambda>(x, y). x * y) (zip xs ys)) = c * sum_list ys"
    using assms(2,1) by (induction xs ys rule: list_induct2) (simp_all add: algebra_simps)
qed

lemma np_polyfit1_normal_equations:
  assumes "np_polyfit1 xs ys = (w, Inr iFit)"
  shows "\<exists>a b. iFit = [a, b] \<and> xs \<noteq> [] \<and> length xs = length ys
     \<and> sum_list (map (\<lambda>(x, y). a * x + b - y) (zip xs ys)) = 0
     \<and> sum_list (map (\<lambda>(x, y). x * (a * x + b - y)) (zip xs ys)) = 0"
proof -
  from assms have ne: "xs \<noteq> []" and len: "length xs = length ys"
    by (auto simp: np_polyfit1_def split: if_splits)
  define n where "n = real (length xs)"
  define sx where "sx = sum_list xs"
  define sy where "sy = sum_list ys"
  define sxx where "sxx = sum_list (map (\<lambda>x. x * x) xs)"
  define sxy where "sxy = sum_list (map (\<lambda>(x, y). x * y) (zip xs ys))"
  have n0: "n \<noteq> 0" using ne by (simp add: n_def)
  show ?thesis
  proof (cases "list_all (\<lambda>x. x = hd xs) xs")
    case True
    with assms ne len have h0: "hd xs \<noteq> 0"
      and fit: "iFit = [(sy / n) / (2 * hd xs), (sy / n) / 2]"
      by (auto simp: np_polyfit1_def Let_def n_def sy_def split: if_splits)
    from all_equal_sums[OF True len] have s: "sx = n * hd xs" "sxx = n * (hd xs * hd xs)"
      "sxy = hd xs * sy" by (simp_all add: n_def sx_def sxx_def sxy_def sy_def)
    have "(sy / n) / (2 * hd xs) * sx + n * ((sy / n) / 2) - sy = 0"
      using n0 h0 by (simp add: s field_simps)
    moreover have "(sy / n) / (2 * hd xs) * sxx + (sy / n) / 2 * sx - sxy = 0"
      using n0 h0 by (simp add: s field_simps)
    ultimately show ?thesis
      using fit ne len sum_residual[OF len] sum_x_residual[OF len]
      by (simp add: n_def sx_def sy_def sxx_def sxy_def)
  next
    case False
    have D: "n * sxx - sx * sx \<noteq> 0"
      using False zero_variance_all_equal[OF ne] by (auto simp: n_def sxx_def sx_def)
    define a where "a = (n * sxy - sx * sy) / (n * sxx - sx * sx)"
    from assms ne len False have fit: "iFit = [a, (sy - a * sx) / n]"
      by (auto simp: np_polyfit1_def Let_def n_def sy_def sx_def sxx_def sxy_def a_def
          split: if_splits)
    have e1: "a * sx + n * ((sy - a * sx) / n) - sy = 0" using n0 by (simp add: field_simps)
    have "a * (n * sxx - sx * sx) = n * sxy - sx * sy" using D by (simp add: a_def)
    then have "n * (a * sxx + (sy - a * sx) / n * sx - sxy) = 0"
      using n0 by (simp add: field_simps)
    then have e2: "a * sxx + (sy - a * sx) / n * sx - sxy = 0" using n0 by simp
    from e1 e2 show ?thesis
      using fit ne len sum_residual[OF len] sum_x_residual[OF len]
      by (simp add: n_def sx_def sy_def sxx_def sxy_def)
  qed
qed

lemma np_polyfit1_least_squares:
  assumes "np_polyfit1 xs ys = (w, Inr iFit)"
  shows "\<exists>a b. iFit = [a, b]
     \<and> (\<forall>a' b'. sum_list (map (\<lambda>(x, y). (a * x + b - y)\<^sup>2) (zip xs ys))
                 \<le> sum_list (map (\<lambda>(x, y). (a' * x + b' - y)\<^sup>2) (zip xs ys)))"
proof -
  from np_polyfit1_normal_equations[OF assms] obtain a b where
    fit: "iFit = [a, b]"
    and n1: "sum_list (map (\<lambda>(x, y). a * x + b - y) (zip xs ys)) = 0"
    and n2: "sum_list (map (\<lambda>(x, y). x * (a * x + b - y)) (zip xs ys)) = 0"
    by blast
  have "\<forall>a' b'. sum_list (map (\<lambda>(x, y). (a * x + b - y)\<^sup>2) (zip xs ys))
                 \<le> sum_list (map (\<lambda>(x, y). (a' * x + b' - y)\<^sup>2) (zip xs ys))"
  proof (intro allI)
    fix a' b' :: real
    have "0 \<le> sum_list (map (\<lambda>(x, y). ((a' - a) * x + (b' - b))\<^sup>2) (zip xs ys))"
      by (rule sum_list_nonneg) auto
    then show "sum_list (map (\<lambda>(x, y). (a * x + b - y)\<^sup>2) (zip xs ys))
                 \<le> sum_list (map (\<lambda>(x, y). (a' * x + b' - y)\<^sup>2) (zip xs ys))"
      unfolding sse_expand[of a' b' "zip xs ys" a b] n1 n2 by simp
  qed
  with fit show ?thesis by blast
qed


lemma stats_loop_ok:
  "length dvdt = length hs \<Longrightarrow> length medI = length hs \<Longrightarrow>
   \<forall>k<length hs. 2 \<le> length (time (hs ! k))
      \<and> mean_abs_dvdt (voltage (hs ! k)) (dt (hs ! k)) = Some (dvdt ! k)
      \<and> np_median (map abs (current (hs ! k))) = Some (medI ! k) \<Longrightarrow>
   stats_loop hs = Inr (map (\<lambda>(x, y). (Some x, Some y)) (zip dvdt medI))"
proof (induction hs arbitrary: dvdt medI)
  case Nil
  then show ?case by simp
next
  case (Cons h hs)
  from Cons.prems(1,2) obtain x xs y ys where
    e: "dvdt = x # xs" "medI = y # ys" and l: "length xs = length hs" "length ys = length hs"
    by (cases dvdt; cases medI) auto
  from Cons.prems(3) have h0: "2 \<le> length (time h)"
    "mean_abs_dvdt (voltage h) (dt h) = Some x" "np_median (map abs (current h)) = Some y"
    unfolding e by auto
  have "\<forall>k<length hs. 2 \<le> length (time (hs ! k))
      \<and> mean_abs_dvdt (voltage (hs ! k)) (dt (hs ! k)) = Some (xs ! k)
      \<and> np_median (map abs (current (hs ! k))) = Some (ys ! k)"
  proof (intro allI impI)
    fix k assume "k < length hs"
    then have "Suc k < length (h # hs)" by simp
    with Cons.prems(3) show "2 \<le> length (time (hs ! k))
      \<and> mean_abs_dvdt (voltage (hs ! k)) (dt (hs ! k)) = Some (xs ! k)
      \<and> np_median (map abs (current (hs ! k))) = Some (ys ! k)"
      unfolding e by fastforce
  qed
  from Cons.IH[OF l this] h0 show ?case unfolding e by simp
qed

lemma finite_stats:
  "\<not> list_ex (\<lambda>s. fst s = None \<or> snd s = None) (map (\<lambda>(x, y). (Some x, Some y)) ps)"
  by (induction ps) auto

lemma finite_stats_values:
  "length xs = length ys \<Longrightarrow>
   map (the \<circ> fst) (map (\<lambda>(x, y). (Some x, Some y)) (zip xs ys)) = xs
   \<and> map (the \<circ> snd) (map (\<lambda>(x, y). (Some x, Some y)) (zip xs ys)) = ys"
  by (induction xs ys rule: list_induct2) simp_all

lemma cCalc_finite:
  assumes "length dvdt = length hystData" and "length medI = length hystData"
    and "\<forall>k<length hystData. 2 \<le> length (time (hystData ! k))
      \<and> mean_abs_dvdt (voltage (hystData ! k)) (dt (hystData ! k)) = Some (dvdt ! k)
      \<and> np_median (map abs (current (hystData ! k))) = Some (medI ! k)"
  shows "cCalc_regression polyfit hystData =
     (case polyfit dvdt medI of
        (w, Inl e) \<Rightarrow> (w, Inl e)
      | (w, Inr iFit) \<Rightarrow> (case iFit of [] \<Rightarrow> (w, Inl IndexError) | c0 # _ \<Rightarrow> (w, Inr c0)))"
proof -
  have l: "length dvdt = length medI" using assms(1,2) by simp
  show ?thesis
    unfolding cCalc_regression_def stats_loop_ok[OF assms]
    using finite_stats[of "zip dvdt medI"] finite_stats_values[OF l]
    by (simp add: Let_def)
qed

lemma np_polyfit1_returns:
  assumes "xs \<noteq> []" and "length xs = length ys" and "\<exists>x \<in> set xs. x \<noteq> 0"
  shows "\<exists>w a b. np_polyfit1 xs ys = (w, Inr [a, b])
     \<and> (list_all (\<lambda>x. x = hd xs) xs \<longrightarrow>
          w = [RankWarning ''Polyfit may be poorly conditioned'']
          \<and> a = (sum_list ys / real (length xs)) / (2 * hd xs))"
proof (cases "list_all (\<lambda>x. x = hd xs) xs")
  case True
  with assms(3) have "hd xs \<noteq> 0" by (auto simp: list_all_iff)
  with True assms(1,2) show ?thesis by (simp add: np_polyfit1_def Let_def)
next
  case False
  with assms(1,2) show ?thesis by (simp add: np_polyfit1_def Let_def)
qed

text \<open>The regression of lines 65 to 101, on samples that have been read. It hands
  the mean \<open>|dV/dt|\<close> and the median \<open>|I|\<close> of the samples to the regression routine and
  returns its first coefficient, with no check of its own on the number of samples or on
  distinct \<open>dV/dt\<close>. With \<^verbatim>\<open>numpy.polyfit\<close> that coefficient is the slope of a
  least-squares line; when all \<open>dV/dt\<close> are equal and not zero numpy issues a RankWarning
  and the slope is \<open>mean medI / (2 dvdt)\<close>.\<close>

lemma cCalc_regression_slope:
  assumes "length dvdt = length hystData" and "length medI = length hystData"
    and "\<forall>k<length hystData. 2 \<le> length (time (hystData ! k))
      \<and> mean_abs_dvdt (voltage (hystData ! k)) (dt (hystData ! k)) = Some (dvdt ! k)
      \<and> np_median (map abs (current (hystData ! k))) = Some (medI ! k)"
  shows "cCalc_regression polyfit hystData =
       (case polyfit dvdt medI of
          (w, Inl e) \<Rightarrow> (w, Inl e)
        | (w, Inr iFit) \<Rightarrow> (case iFit of [] \<Rightarrow> (w, Inl IndexError) | c0 # _ \<Rightarrow> (w, Inr c0)))
     \<and> (hystData = [] \<longrightarrow> cCalc_regression np_polyfit1 hystData = ([], Inl TypeError))
     \<and> (hystData \<noteq> [] \<and> (\<exists>x \<in> set dvdt. x \<noteq> 0) \<longrightarrow>
          (\<exists>w a b. cCalc_regression np_polyfit1 hystData = (w, Inr a)
             \<and> (\<forall>a' b'. sum_list (map (\<lambda>(x, y). (a * x + b - y)\<^sup>2) (zip dvdt medI))
                        \<le> sum_list (map (\<lambda>(x, y). (a' * x + b' - y)\<^sup>2) (zip dvdt medI)))
             \<and> ((\<forall>x \<in> set dvdt. x = hd dvdt) \<longrightarrow>
                    w = [RankWarning ''Polyfit may be poorly conditioned'']
                  \<and> a = (sum_list medI / real (length medI)) / (2 * hd dvdt))))"
proof (intro conjI impI)
  show "cCalc_regression polyfit hystData =
       (case polyfit dvdt medI of
          (w, Inl e) \<Rightarrow> (w, Inl e)
        | (w, Inr iFit) \<Rightarrow> (case iFit of [] \<Rightarrow> (w, Inl IndexError) | c0 # _ \<Rightarrow> (w, Inr c0)))"
    by (rule cCalc_finite[OF assms])
next
  assume "hystData = []"
  then show "cCalc_regression np_polyfit1 hystData = ([], Inl TypeError)"
    by (simp add: cCalc_regression_def np_polyfit1_def)
next
  assume h: "hystData \<noteq> [] \<and> (\<exists>x \<in> set dvdt. x \<noteq> 0)"
  with assms(1,2) have ne: "dvdt \<noteq> []" and l: "length dvdt = length medI" by auto
  from np_polyfit1_returns[OF ne l] h obtain w a b where
    fit: "np_polyfit1 dvdt medI = (w, Inr [a, b])"
    and deg: "list_all (\<lambda>x. x = hd dvdt) dvdt \<longrightarrow>
          w = [RankWarning ''Polyfit may be poorly conditioned'']
          \<and> a = (sum_list medI / real (length dvdt)) / (2 * hd dvdt)"
    by blast
  from np_polyfit1_least_squares[OF fit]
  have ls: "\<forall>a' b'. sum_list (map (\<lambda>(x, y). (a * x + b - y)\<^sup>2) (zip dvdt medI))
                        \<le> sum_list (map (\<lambda>(x, y). (a' * x + b' - y)\<^sup>2) (zip dvdt medI))"
    by simp
  have run: "cCalc_regression np_polyfit1 hystData = (w, Inr a)"
    unfolding cCalc_finite[OF assms] fit by simp
  from deg l have deg': "(\<forall>x \<in> set dvdt. x = hd dvdt) \<longrightarrow>
                    w = [RankWarning ''Polyfit may be poorly conditioned'']
                  \<and> a = (sum_list medI / real (length medI)) / (2 * hd dvdt)"
    by (simp add: list_all_iff)
  from run ls deg'
  show "\<exists>w a b. cCalc_regression np_polyfit1 hystData = (w, Inr a)
             \<and> (\<forall>a' b'. sum_list (map (\<lambda>(x, y). (a * x + b - y)\<^sup>2) (zip dvdt medI))
                        \<le> sum_list (map (\<lambda>(x, y). (a' * x + b' - y)\<^sup>2) (zip dvdt medI)))
             \<and> ((\<forall>x \<in> set dvdt. x = hd dvdt) \<longrightarrow>
                    w = [RankWarning ''Polyfit may be poorly conditioned'']
                  \<and> a = (sum_list medI / real (length medI)) / (2 * hd dvdt))"
    by blast
qed

lemma ramp_sample_stats:
  "2 \<le> length (time ramp_sample)
   \<and> mean_abs_dvdt (voltage ramp_sample) (dt ramp_sample) = Some 2
   \<and> np_median (map abs (current ramp_sample)) = Some 2"
  by code_simp

lemma slow_sample_stats:
  "2 \<le> length (time slow_sample)
   \<and> mean_abs_dvdt (voltage slow_sample) (dt slow_sample) = Some 1
   \<and> np_median (map abs (current slow_sample)) = Some 1"
  by code_simp

lemma cCalc_regression_two_samples: "cCalc_regression np_polyfit1 [ramp_sample, slow_sample] = ([], Inr 1)"
  by code_simp

lemma cCalc_regression_single_sample:
  "cCalc_regression np_polyfit1 [ramp_sample]
     = ([RankWarning ''Polyfit may be poorly conditioned''], Inr (1 / 2))"
  by code_simp

lemma read_loop_attribute_error:
  "files \<noteq> [] \<Longrightarrow> read_loop call files = Inl AttributeError"
  by (cases files) (simp_all add: getattr_HysteresisData_def HysteresisData_attributes_def)

text \<open>
  Claim C8. The docstring of \<^verbatim>\<open>cCalc\<close> promises the capacitance as the slope of
  \<^verbatim>\<open>i = C dV/dt\<close> over the median \<open>|I|\<close> of the samples, and lines 65 to 101 compute that
  slope (\<open>cCalc_regression\<close>). The function never reaches them with a sample: for every
  list of files that is not empty, the first iteration of the read loop looks up
  \<^verbatim>\<open>tsvRead\<close> on a \<^verbatim>\<open>HysteresisData\<close> object, whose reader is named \<^verbatim>\<open>tsv_read\<close>, and
  raises AttributeError, whatever the files hold and whatever the regression routine
  is. For the empty list \<^verbatim>\<open>numpy.polyfit\<close> raises TypeError. So \<open>cCalc\<close> returns a
  capacitance for no input.
\<close>

theorem cCalc_attribute_error:
  "(files \<noteq> [] \<longrightarrow> cCalc polyfit call files = ([], Inl AttributeError))
   \<and> cCalc np_polyfit1 call [] = ([], Inl TypeError)
   \<and> (\<forall>c. snd (cCalc np_polyfit1 call files) \<noteq> Inr c)"
proof -
  have a: "cCalc pf call files = ([], Inl AttributeError)" if "files \<noteq> []" for pf
    using read_loop_attribute_error[OF that] by (simp add: cCalc_def)
  have b: "cCalc np_polyfit1 call [] = ([], Inl TypeError)"
    by (simp add: cCalc_def cCalc_regression_def np_polyfit1_def)
  have c: "snd (cCalc np_polyfit1 call files) \<noteq> Inr c" for c
  proof (cases "files = []")
    case True
    with b show ?thesis by simp
  next
    case False
    from a[OF False] show ?thesis by simp
  qed
  from a b c show ?thesis by blast
qed

theorem cCalc_attribute_error_witness:
  "[''a_100Hz.tsv'', ''b_200Hz.tsv''] \<noteq> []
   \<and> cCalc np_polyfit1 (\<lambda>name data f. if f = ''a_100Hz.tsv'' then Inr ramp_sample else Inr slow_sample)
        [''a_100Hz.tsv'', ''b_200Hz.tsv''] = ([], Inl AttributeError)"
proof -
  have n: "[''a_100Hz.tsv'', ''b_200Hz.tsv''] \<noteq> []" by simp
  from cCalc_attribute_error[of "[''a_100Hz.tsv'', ''b_200Hz.tsv'']" np_polyfit1
      "\<lambda>name data f. if f = ''a_100Hz.tsv'' then Inr ramp_sample else Inr slow_sample",
      THEN conjunct1, THEN mp, OF n] n
  show ?thesis by (intro conjI)
qed

end
